theory Spec2Isabelle
  imports Main "HOL-Library.Sublist" "HOL-Library.AList"
begin

section \<open>Path Router (lib/internal/vfs/router.js)\<close>

subsection \<open>String primitives of the host\<close>

text \<open>
  Strings are character lists. \<open>StringPrototypeStartsWith\<close> and
  \<open>StringPrototypeEndsWith\<close> compare the leading, respectively trailing, slice of
  the receiver with the argument. Where the source slices from a fixed index,
  \<open>s.slice(k)\<close> is written \<open>drop k s\<close> and \<open>s.slice(0, -1)\<close> is written
  \<open>butlast s\<close>.
\<close>

definition StringPrototypeStartsWith :: "string \<Rightarrow> string \<Rightarrow> bool" where
  "StringPrototypeStartsWith s t = (take (length t) s = t)"

definition StringPrototypeEndsWith :: "string \<Rightarrow> string \<Rightarrow> bool" where
  "StringPrototypeEndsWith s t =
     (length t \<le> length s \<and> drop (length s - length t) s = t)"

text \<open>
  \<open>js_split c s\<close> is \<open>s.split(c)\<close> for a one-character separator: the empty string
  gives one empty segment, two adjacent separators give an empty segment between them.
  \<open>js_join c segs\<close> is \<open>segs.join(c)\<close>.
\<close>

fun js_split :: "char \<Rightarrow> string \<Rightarrow> string list" where
  "js_split c [] = [[]]"
| "js_split c (x # xs) =
     (if x = c then [] # js_split c xs
      else (case js_split c xs of
              [] \<Rightarrow> [[x]]
            | s # ss \<Rightarrow> (x # s) # ss))"

fun js_join :: "char \<Rightarrow> string list \<Rightarrow> string" where
  "js_join c [] = []"
| "js_join c [s] = s"
| "js_join c (s # t # ss) = s @ c # js_join c (t # ss)"

subsection \<open>The host's path.resolve\<close>

text \<open>
  Modelled from the spec: \<open>path.resolve\<close> of the host's path module
  (\<open>require('path')\<close>) is not under src/. The spec asks of normalisation an absolute,
  separator-canonicalised path with no trailing slash except for the root. The model is
  the POSIX one (\<open>path.sep\<close> is \<open>/\<close>, so the back-slash branch of
  \<open>normalizePath\<close> is not taken): a path that does not start with \<open>/\<close> is read
  relative to the working directory \<open>cwd\<close>, which the host always reports as an
  absolute path; the segments are then walked left to right, empty segments and \<open>.\<close>
  are dropped and \<open>..\<close> removes the segment before it (nothing at the root).
\<close>

fun normalizeString :: "string list \<Rightarrow> string list \<Rightarrow> string list" where
  "normalizeString res [] = res"
| "normalizeString res (s # ss) =
     (if s = [] \<or> s = ''.'' then normalizeString res ss
      else if s = ''..'' then normalizeString (butlast res) ss
      else normalizeString (res @ [s]) ss)"

definition path_resolve :: "string \<Rightarrow> string \<Rightarrow> string" where
  "path_resolve cwd p =
     CHR ''/'' # js_join CHR ''/''
       (normalizeString []
          (js_split CHR ''/''
             (if p \<noteq> [] \<and> hd p = CHR ''/'' then p else cwd @ CHR ''/'' # p)))"

text \<open>
  A segment that \<open>normalizeString\<close> keeps: not empty, not \<open>.\<close> and not \<open>..\<close>.
\<close>

definition cleanSegment :: "string \<Rightarrow> bool" where
  "cleanSegment s = (s \<noteq> [] \<and> s \<noteq> ''.'' \<and> s \<noteq> ''..'')"

subsection \<open>router.js\<close>

definition normalizePath :: "string \<Rightarrow> string \<Rightarrow> string" where
  "normalizePath cwd inputPath =
     (let normalized = path_resolve cwd inputPath in
      if length normalized > 1 \<and> StringPrototypeEndsWith normalized ''/''
      then butlast normalized
      else normalized)"

definition splitPath :: "string \<Rightarrow> string list" where
  "splitPath normalizedPath =
     (if normalizedPath = ''/'' then []
      else js_split CHR ''/'' (drop 1 normalizedPath))"

text \<open>
  \<open>lastIndexOf s c\<close> is \<open>s.lastIndexOf(c)\<close>, \<open>-1\<close> when \<open>c\<close> does not occur;
  \<open>StringPrototypeSlice s i j\<close> is \<open>s.slice(i, j)\<close>, where a negative index counts
  from the end and indices are clamped to the string.
\<close>

fun lastIndexOf :: "string \<Rightarrow> char \<Rightarrow> int" where
  "lastIndexOf [] c = - 1"
| "lastIndexOf (x # xs) c =
     (let r = lastIndexOf xs c in
      if r \<ge> 0 then r + 1 else if x = c then 0 else - 1)"

definition StringPrototypeSlice :: "string \<Rightarrow> int \<Rightarrow> int \<Rightarrow> string" where
  "StringPrototypeSlice s i j =
     (let len = int (length s);
          lo = (if i < 0 then max (len + i) 0 else min i len);
          hi = (if j < 0 then max (len + j) 0 else min j len)
      in take (nat (hi - lo)) (drop (nat lo) s))"

definition getParentPath :: "string \<Rightarrow> string option" where
  "getParentPath normalizedPath =
     (if normalizedPath = ''/'' then None
      else
        let lastSlash = lastIndexOf normalizedPath CHR ''/'' in
        if lastSlash = 0 then Some ''/''
        else Some (StringPrototypeSlice normalizedPath 0 lastSlash))"

definition getBaseName :: "string \<Rightarrow> string" where
  "getBaseName normalizedPath =
     (let lastSlash = lastIndexOf normalizedPath CHR ''/'' in
      StringPrototypeSlice normalizedPath (lastSlash + 1) (int (length normalizedPath)))"

definition isUnderMountPoint :: "string \<Rightarrow> string \<Rightarrow> bool" where
  "isUnderMountPoint normalizedPath mountPoint =
     (if normalizedPath = mountPoint then True
      else StringPrototypeStartsWith normalizedPath (mountPoint @ ''/''))"

definition getRelativePath :: "string \<Rightarrow> string \<Rightarrow> string" where
  "getRelativePath normalizedPath mountPoint =
     (if normalizedPath = mountPoint then ''/''
      else drop (length mountPoint) normalizedPath)"

definition joinMountPath :: "string \<Rightarrow> string \<Rightarrow> string" where
  "joinMountPath mountPoint relativePath =
     (if relativePath = ''/'' then mountPoint else mountPoint @ relativePath)"

section \<open>Errors (lib/internal/vfs/errors.js)\<close>

text \<open>
  Modelled from the spec: errors.js is not under src/. \<open>createENOENT\<close>,
  \<open>createENOTDIR\<close> and \<open>createEISDIR\<close> take the name of the operation and the
  path and build the error tagged with both. \<open>ContentUnavailable\<close> is the failure of
  a synchronous read of an asynchronous-only provider, \<open>Error msg\<close> is
  \<open>new Error(msg)\<close>, and \<open>HostError msg\<close> is an exception raised by a collaborator
  (a content provider, the decoder of \<open>Buffer.toString\<close>, a method missing on an
  object).
\<close>

datatype error =
    ENOENT string string
  | ENOTDIR string string
  | EISDIR string string
  | ContentUnavailable
  | Error string
  | HostError string

definition createENOENT :: "string \<Rightarrow> string \<Rightarrow> error" where
  "createENOENT syscall path = ENOENT syscall path"

definition createEISDIR :: "string \<Rightarrow> string \<Rightarrow> error" where
  "createEISDIR syscall path = EISDIR syscall path"

section \<open>Entry model (lib/internal/vfs/entries.js)\<close>

text \<open>
  Modelled from the spec: entries.js (\<open>VirtualFile\<close>, \<open>VirtualDirectory\<close>) is not
  under src/. A file holds its path at creation time and a content source: a fixed byte
  buffer, a synchronous provider or an asynchronous-only provider; a provider is
  represented by the outcome of calling it. \<open>getContentSync\<close> fails with
  \<open>ContentUnavailable\<close> when the provider is asynchronous-only; \<open>getContent\<close>
  always works. A directory holds its path and a mapping from child names to child
  entries, kept in insertion order with unique names; \<open>addEntry\<close> overwrites an
  existing name. Populate callbacks and metadata options are not modelled.
\<close>

datatype content =
    FixedBytes string
  | SyncProvider "error + string"
  | AsyncProvider "error + string"

datatype entry =
    VirtualFile string content
  | VirtualDirectory string "(string \<times> entry) list"

fun isDirectory :: "entry \<Rightarrow> bool" where
  "isDirectory (VirtualDirectory p children) = True"
| "isDirectory (VirtualFile p c) = False"

fun getEntry :: "entry \<Rightarrow> string \<Rightarrow> entry option" where
  "getEntry (VirtualDirectory p children) name = map_of children name"
| "getEntry (VirtualFile p c) name = None"

fun getContentSync :: "content \<Rightarrow> error + string" where
  "getContentSync (FixedBytes b) = Inr b"
| "getContentSync (SyncProvider r) = r"
| "getContentSync (AsyncProvider r) = Inl ContentUnavailable"

fun getContent :: "content \<Rightarrow> error + string" where
  "getContent (FixedBytes b) = Inr b"
| "getContent (SyncProvider r) = r"
| "getContent (AsyncProvider r) = r"

section \<open>Virtual file system (lib/internal/vfs/virtual_fs.js)\<close>

record VirtualFileSystem =
  kRoot :: entry
  kMountPoint :: "string option"
  kMounted :: bool
  kOverlay :: bool
  kFallthrough :: bool

text \<open>The constructor; \<open>fallthrough\<close> is \<open>options.fallthrough\<close>, if given.\<close>

definition newVirtualFileSystem :: "bool option \<Rightarrow> VirtualFileSystem" where
  "newVirtualFileSystem fallthrough =
     \<lparr> kRoot = VirtualDirectory ''/'' [],
       kMountPoint = None,
       kMounted = False,
       kOverlay = False,
       kFallthrough = (fallthrough \<noteq> Some False) \<rparr>"

subsection \<open>Entry management\<close>

text \<open>
  A method that changes the instance returns the exception it raised, if any, together
  with the state it leaves, so that what a failing call has already changed is part of
  the result.

  The loop of \<open>addFile\<close> over the segments works on the tree in place; here each step
  returns the current directory as the call leaves it. A missing segment is created and
  entered into the current directory before the loop goes down into it, so it stays there
  if a later step raises. \<open>passed\<close> holds the segments already passed
  (\<open>segments.slice(0, i)\<close>), from which the path of an auto-created directory and the
  error message are built. Calling \<open>getEntry\<close> or \<open>addEntry\<close> on an object that is
  not a directory is a TypeError of the host; this can only concern the root.
\<close>

fun addFileLoop ::
  "string list \<Rightarrow> string list \<Rightarrow> entry \<Rightarrow> entry \<Rightarrow> error option \<times> entry" where
  "addFileLoop passed segments newFile (VirtualFile p c) =
     (Some (HostError ''TypeError''), VirtualFile p c)"
| "addFileLoop passed [] newFile (VirtualDirectory p children) =
     (None, VirtualDirectory p children)"
| "addFileLoop passed [fileName] newFile (VirtualDirectory p children) =
     (None, VirtualDirectory p (AList.update fileName newFile children))"
| "addFileLoop passed (segment # rest) newFile (VirtualDirectory p children) =
     (case map_of children segment of
        None \<Rightarrow>
          (case addFileLoop (passed @ [segment]) rest newFile
                  (VirtualDirectory (CHR ''/'' # js_join CHR ''/'' (passed @ [segment])) []) of
             (err, d) \<Rightarrow> (err, VirtualDirectory p (AList.update segment d children)))
      | Some entry \<Rightarrow>
          if \<not> isDirectory entry
          then (Some (Error (''Cannot create file: '' @ js_join CHR ''/'' (passed @ [segment])
                              @ '' is not a directory'')),
                VirtualDirectory p children)
          else
            (case addFileLoop (passed @ [segment]) rest newFile entry of
               (err, d) \<Rightarrow> (err, VirtualDirectory p (AList.update segment d children))))"

definition addFile ::
  "string \<Rightarrow> string \<Rightarrow> content \<Rightarrow> VirtualFileSystem \<Rightarrow> error option \<times> VirtualFileSystem" where
  "addFile cwd filePath content vfs =
     (let normalized = normalizePath cwd filePath;
          segments = splitPath normalized
      in if length segments = 0 then (Some (Error ''Cannot add file at root path''), vfs)
         else
           (case addFileLoop [] segments (VirtualFile normalized content) (kRoot vfs) of
              (err, root) \<Rightarrow> (err, vfs\<lparr>kRoot := root\<rparr>)))"

text \<open>
  \<open>addDirectory\<close>. The loop over the ancestors is the one of \<open>addFile\<close> with its own
  error message. \<open>populate\<close> tells whether a populate function is passed; as populate
  callbacks are not modelled, the directory it creates is the empty directory it starts
  as. At the root path the root is replaced only when a populate function is passed.
\<close>

fun addDirectoryLoop ::
  "string list \<Rightarrow> string list \<Rightarrow> entry \<Rightarrow> entry \<Rightarrow> error option \<times> entry" where
  "addDirectoryLoop passed segments dir (VirtualFile p c) =
     (Some (HostError ''TypeError''), VirtualFile p c)"
| "addDirectoryLoop passed [] dir (VirtualDirectory p children) =
     (None, VirtualDirectory p children)"
| "addDirectoryLoop passed [dirName] dir (VirtualDirectory p children) =
     (None, VirtualDirectory p (AList.update dirName dir children))"
| "addDirectoryLoop passed (segment # rest) dir (VirtualDirectory p children) =
     (case map_of children segment of
        None \<Rightarrow>
          (case addDirectoryLoop (passed @ [segment]) rest dir
                  (VirtualDirectory (CHR ''/'' # js_join CHR ''/'' (passed @ [segment])) []) of
             (err, d) \<Rightarrow> (err, VirtualDirectory p (AList.update segment d children)))
      | Some entry \<Rightarrow>
          if \<not> isDirectory entry
          then (Some (Error (''Cannot create directory: ''
                              @ js_join CHR ''/'' (passed @ [segment])
                              @ '' is not a directory'')),
                VirtualDirectory p children)
          else
            (case addDirectoryLoop (passed @ [segment]) rest dir entry of
               (err, d) \<Rightarrow> (err, VirtualDirectory p (AList.update segment d children))))"

definition addDirectory ::
  "string \<Rightarrow> string \<Rightarrow> bool \<Rightarrow> VirtualFileSystem \<Rightarrow> error option \<times> VirtualFileSystem" where
  "addDirectory cwd dirPath populate vfs =
     (let normalized = normalizePath cwd dirPath;
          segments = splitPath normalized
      in if length segments = 0
         then (if populate then (None, vfs\<lparr>kRoot := VirtualDirectory ''/'' []\<rparr>)
               else (None, vfs))
         else
           (case addDirectoryLoop [] segments (VirtualDirectory normalized []) (kRoot vfs) of
              (err, root) \<Rightarrow> (err, vfs\<lparr>kRoot := root\<rparr>)))"

subsection \<open>Path resolution\<close>

text \<open>The walk of \<open>_resolveEntry\<close> from the current entry along the segments.\<close>

fun walk :: "entry \<Rightarrow> string list \<Rightarrow> entry option" where
  "walk current [] = Some current"
| "walk current (segment # segments) =
     (if \<not> isDirectory current then None
      else (case getEntry current segment of
              None \<Rightarrow> None
            | Some entry \<Rightarrow> walk entry segments))"

definition walkFromRoot :: "VirtualFileSystem \<Rightarrow> string \<Rightarrow> entry option" where
  "walkFromRoot vfs vfsPath =
     (if vfsPath = ''/'' then Some (kRoot vfs)
      else walk (kRoot vfs) (splitPath vfsPath))"

text \<open>
  \<open>_resolveEntry\<close>. The test \<open>this[kMounted] && this[kMountPoint]\<close> holds when the
  flag is set and the mount point is a non-empty string.
\<close>

definition resolveEntry :: "string \<Rightarrow> VirtualFileSystem \<Rightarrow> string \<Rightarrow> entry option" where
  "resolveEntry cwd vfs inputPath =
     (let normalized = normalizePath cwd inputPath in
      case kMountPoint vfs of
        Some mountPoint \<Rightarrow>
          if kMounted vfs \<and> mountPoint \<noteq> [] then
            (if \<not> isUnderMountPoint normalized mountPoint then None
             else walkFromRoot vfs (getRelativePath normalized mountPoint))
          else walkFromRoot vfs normalized
      | None \<Rightarrow> walkFromRoot vfs normalized)"

definition has :: "string \<Rightarrow> VirtualFileSystem \<Rightarrow> string \<Rightarrow> bool" where
  "has cwd vfs entryPath =
     (let normalized = normalizePath cwd entryPath in
      resolveEntry cwd vfs normalized \<noteq> None)"

text \<open>
  The path inside the tree that \<open>_resolveEntry\<close> walks for an input path: the
  normalised path, or the path relative to the mount point when the instance is mounted;
  none when the path is outside the mount point.
\<close>

definition vfsPathOf :: "string \<Rightarrow> VirtualFileSystem \<Rightarrow> string \<Rightarrow> string option" where
  "vfsPathOf cwd vfs inputPath =
     (let normalized = normalizePath cwd inputPath in
      case kMountPoint vfs of
        Some mountPoint \<Rightarrow>
          if kMounted vfs \<and> mountPoint \<noteq> [] then
            (if \<not> isUnderMountPoint normalized mountPoint then None
             else Some (getRelativePath normalized mountPoint))
          else Some normalized
      | None \<Rightarrow> Some normalized)"

text \<open>
  \<open>remove\<close> resolves the parent of the path with \<open>_resolveEntry\<close> and calls
  \<open>removeEntry\<close> on it, which deletes the name from the directory's map and tells
  whether it was there. The change of the parent in place is written as the tree rebuilt
  along the path that \<open>_resolveEntry\<close> walked to the parent (\<open>removeAt\<close>).
\<close>

fun removeAt :: "entry \<Rightarrow> string list \<Rightarrow> string \<Rightarrow> bool \<times> entry" where
  "removeAt (VirtualFile p c) segments name = (False, VirtualFile p c)"
| "removeAt (VirtualDirectory p children) [] name =
     (map_of children name \<noteq> None, VirtualDirectory p (AList.delete name children))"
| "removeAt (VirtualDirectory p children) (segment # segments) name =
     (case map_of children segment of
        None \<Rightarrow> (False, VirtualDirectory p children)
      | Some entry \<Rightarrow>
          (case removeAt entry segments name of
             (removed, d) \<Rightarrow> (removed, VirtualDirectory p (AList.update segment d children))))"

definition remove :: "string \<Rightarrow> string \<Rightarrow> VirtualFileSystem \<Rightarrow> bool \<times> VirtualFileSystem" where
  "remove cwd entryPath vfs =
     (let normalized = normalizePath cwd entryPath in
      case getParentPath normalized of
        None \<Rightarrow> (False, vfs)
      | Some parentPath \<Rightarrow>
          (case resolveEntry cwd vfs parentPath of
             None \<Rightarrow> (False, vfs)
           | Some parent \<Rightarrow>
               if \<not> isDirectory parent then (False, vfs)
               else
                 (case vfsPathOf cwd vfs parentPath of
                    None \<Rightarrow> (False, vfs)
                  | Some vfsPath \<Rightarrow>
                      (case removeAt (kRoot vfs) (splitPath vfsPath) (getBaseName normalized) of
                         (removed, root) \<Rightarrow> (removed, vfs\<lparr>kRoot := root\<rparr>)))))"

definition shouldHandle :: "string \<Rightarrow> VirtualFileSystem \<Rightarrow> string \<Rightarrow> bool" where
  "shouldHandle cwd vfs inputPath =
     (if \<not> kMounted vfs \<and> \<not> kOverlay vfs then False
      else
        let normalized = normalizePath cwd inputPath in
        if kOverlay vfs then resolveEntry cwd vfs normalized \<noteq> None
        else
          (case kMountPoint vfs of
             Some mountPoint \<Rightarrow>
               if kMounted vfs \<and> mountPoint \<noteq> []
               then isUnderMountPoint normalized mountPoint
               else False
           | None \<Rightarrow> False))"

subsection \<open>Synchronous file operations\<close>

definition existsSync :: "string \<Rightarrow> VirtualFileSystem \<Rightarrow> string \<Rightarrow> bool" where
  "existsSync cwd vfs filePath = (resolveEntry cwd vfs filePath \<noteq> None)"

text \<open>
  \<open>getStats\<close> of the entry model is not under src/; the operations that return stats
  take it as the parameter \<open>getStats\<close>.
\<close>

definition statSync ::
  "(entry \<Rightarrow> 'stats) \<Rightarrow> string \<Rightarrow> VirtualFileSystem \<Rightarrow> string \<Rightarrow> error + 'stats" where
  "statSync getStats cwd vfs filePath =
     (case resolveEntry cwd vfs filePath of
        None \<Rightarrow> Inl (createENOENT ''stat'' filePath)
      | Some entry \<Rightarrow> Inr (getStats entry))"

text \<open>
  The second argument of the read operations: absent, an encoding string, or an object
  whose \<open>encoding\<close> property may be absent. What a read returns: the raw buffer, or the
  string that \<open>content.toString(encoding)\<close> gives. The decoder of the host's buffers
  is the parameter \<open>toString\<close>; it may raise (an unknown encoding).
\<close>

datatype readOptions = NoOptions | OptString string | OptObject "string option"

datatype fileData = Buffer string | Text string

fun encodingOf :: "readOptions \<Rightarrow> string option" where
  "encodingOf NoOptions = None"
| "encodingOf (OptString s) = (if s = [] then None else Some s)"
| "encodingOf (OptObject None) = None"
| "encodingOf (OptObject (Some s)) = (if s = [] then None else Some s)"

definition handleEncoding ::
  "(string \<Rightarrow> string \<Rightarrow> error + string) \<Rightarrow> readOptions \<Rightarrow> string \<Rightarrow> error + fileData" where
  "handleEncoding toString options content =
     (case encodingOf options of
        Some encoding \<Rightarrow>
          (case toString content encoding of
             Inl e \<Rightarrow> Inl e
           | Inr s \<Rightarrow> Inr (Text s))
      | None \<Rightarrow> Inr (Buffer content))"

definition readFileSync ::
  "(string \<Rightarrow> string \<Rightarrow> error + string) \<Rightarrow> string \<Rightarrow> VirtualFileSystem \<Rightarrow> string
     \<Rightarrow> readOptions \<Rightarrow> error + fileData" where
  "readFileSync toString cwd vfs filePath options =
     (case resolveEntry cwd vfs filePath of
        None \<Rightarrow> Inl (createENOENT ''open'' filePath)
      | Some (VirtualDirectory p children) \<Rightarrow> Inl (createEISDIR ''read'' filePath)
      | Some (VirtualFile p c) \<Rightarrow>
          (case getContentSync c of
             Inl e \<Rightarrow> Inl e
           | Inr content \<Rightarrow> handleEncoding toString options content))"

definition realpathSync :: "string \<Rightarrow> VirtualFileSystem \<Rightarrow> string \<Rightarrow> error + string" where
  "realpathSync cwd vfs filePath =
     (let normalized = normalizePath cwd filePath in
      case resolveEntry cwd vfs normalized of
        None \<Rightarrow> Inl (createENOENT ''realpath'' filePath)
      | Some entry \<Rightarrow> Inr normalized)"

definition internalModuleStat :: "string \<Rightarrow> VirtualFileSystem \<Rightarrow> string \<Rightarrow> int" where
  "internalModuleStat cwd vfs filePath =
     (case resolveEntry cwd vfs filePath of
        None \<Rightarrow> - 2
      | Some entry \<Rightarrow> if isDirectory entry then 1 else 0)"

subsection \<open>Asynchronous file operations\<close>

text \<open>
  The callback form of \<open>readFile\<close> is modelled by the arguments \<open>(err, data)\<close> its
  callback receives, the promise form by the value the promise settles with; when they
  are delivered is not part of the model. A function passed in place of the options is
  \<open>NoOptions\<close>. Both forms read the content through \<open>getContent\<close>; in the callback
  form an exception of the decoder is caught by the \<open>catch\<close> handler and handed to the
  callback.
\<close>

definition readFile ::
  "(string \<Rightarrow> string \<Rightarrow> error + string) \<Rightarrow> string \<Rightarrow> VirtualFileSystem \<Rightarrow> string
     \<Rightarrow> readOptions \<Rightarrow> error + fileData" where
  "readFile toString cwd vfs filePath options =
     (case resolveEntry cwd vfs filePath of
        None \<Rightarrow> Inl (createENOENT ''open'' filePath)
      | Some (VirtualDirectory p children) \<Rightarrow> Inl (createEISDIR ''read'' filePath)
      | Some (VirtualFile p c) \<Rightarrow>
          (case getContent c of
             Inl err \<Rightarrow> Inl err
           | Inr content \<Rightarrow> handleEncoding toString options content))"

definition promises_readFile ::
  "(string \<Rightarrow> string \<Rightarrow> error + string) \<Rightarrow> string \<Rightarrow> VirtualFileSystem \<Rightarrow> string
     \<Rightarrow> readOptions \<Rightarrow> error + fileData" where
  "promises_readFile toString cwd vfs filePath options =
     (case resolveEntry cwd vfs filePath of
        None \<Rightarrow> Inl (createENOENT ''open'' filePath)
      | Some (VirtualDirectory p children) \<Rightarrow> Inl (createEISDIR ''read'' filePath)
      | Some (VirtualFile p c) \<Rightarrow>
          (case getContent c of
             Inl e \<Rightarrow> Inl e
           | Inr content \<Rightarrow> handleEncoding toString options content))"

section \<open>Hook registry (lib/internal/vfs/module_hooks.js)\<close>

text \<open>
  The registry holds references to the active instances, compared by identity, and the
  flag that the hooks are installed. \<open>registerVFS\<close> pushes a reference that is not yet
  in the list and installs the hooks when they are not; \<open>unregisterVFS\<close> splices the
  first occurrence out and leaves the hooks.
\<close>

record 'ref hookRegistry =
  activeVFSList :: "'ref list"
  hooksInstalled :: bool

definition registerVFS :: "'ref \<Rightarrow> 'ref hookRegistry \<Rightarrow> 'ref hookRegistry" where
  "registerVFS vfs reg =
     (if vfs \<notin> set (activeVFSList reg)
      then reg\<lparr>activeVFSList := activeVFSList reg @ [vfs], hooksInstalled := True\<rparr>
      else reg)"

definition unregisterVFS :: "'ref \<Rightarrow> 'ref hookRegistry \<Rightarrow> 'ref hookRegistry" where
  "unregisterVFS vfs reg = reg\<lparr>activeVFSList := remove1 vfs (activeVFSList reg)\<rparr>"

subsection \<open>Activation (virtual_fs.js, mount, overlay, unmount)\<close>

text \<open>
  \<open>self\<close> is the reference of the instance the method is called on; the method updates
  the instance and the registry. An instance that is already active makes \<open>mount\<close> and
  \<open>overlay\<close> raise \<open>new Error('VFS is already mounted or in overlay mode')\<close>, the
  error the spec files under InvalidState, before anything is changed.
\<close>

definition mount ::
  "string \<Rightarrow> 'ref \<Rightarrow> string \<Rightarrow> VirtualFileSystem \<times> 'ref hookRegistry
     \<Rightarrow> error option \<times> VirtualFileSystem \<times> 'ref hookRegistry" where
  "mount cwd self mountPrefix st =
     (case st of (vfs, reg) \<Rightarrow>
        if kMounted vfs \<or> kOverlay vfs
        then (Some (Error ''VFS is already mounted or in overlay mode''), vfs, reg)
        else (None,
              vfs\<lparr>kMountPoint := Some (normalizePath cwd mountPrefix), kMounted := True\<rparr>,
              registerVFS self reg))"

definition overlay ::
  "'ref \<Rightarrow> VirtualFileSystem \<times> 'ref hookRegistry
     \<Rightarrow> error option \<times> VirtualFileSystem \<times> 'ref hookRegistry" where
  "overlay self st =
     (case st of (vfs, reg) \<Rightarrow>
        if kMounted vfs \<or> kOverlay vfs
        then (Some (Error ''VFS is already mounted or in overlay mode''), vfs, reg)
        else (None, vfs\<lparr>kOverlay := True\<rparr>, registerVFS self reg))"

definition unmount ::
  "'ref \<Rightarrow> VirtualFileSystem \<times> 'ref hookRegistry \<Rightarrow> VirtualFileSystem \<times> 'ref hookRegistry" where
  "unmount self st =
     (case st of (vfs, reg) \<Rightarrow>
        (vfs\<lparr>kMountPoint := None, kMounted := False, kOverlay := False\<rparr>,
         unregisterVFS self reg))"

text \<open>
  A caller's sequence of activation calls on one instance; a call that raises leaves the
  state as the call left it and the caller goes on with the next call.
\<close>

datatype activation = Mount string | Overlay | Unmount

fun activate ::
  "string \<Rightarrow> 'ref \<Rightarrow> activation \<Rightarrow> VirtualFileSystem \<times> 'ref hookRegistry
     \<Rightarrow> VirtualFileSystem \<times> 'ref hookRegistry" where
  "activate cwd self (Mount mountPrefix) st = snd (mount cwd self mountPrefix st)"
| "activate cwd self Overlay st = snd (overlay self st)"
| "activate cwd self Unmount st = unmount self st"

fun activations ::
  "string \<Rightarrow> 'ref \<Rightarrow> activation list \<Rightarrow> VirtualFileSystem \<times> 'ref hookRegistry
     \<Rightarrow> VirtualFileSystem \<times> 'ref hookRegistry" where
  "activations cwd self [] st = st"
| "activations cwd self (call # calls) st = activations cwd self calls (activate cwd self call st)"

subsection \<open>Sequences of administrative calls\<close>

text \<open>
  A caller's calls on one instance: \<open>addFile\<close>, \<open>addDirectory\<close>, \<open>remove\<close> and
  the activation calls. Each call leaves the state it leaves, whether it raises or not,
  and the caller goes on with the next call.
\<close>

datatype vfsCall =
    CallAddFile string content
  | CallAddDirectory string bool
  | CallRemove string
  | CallActivate activation

fun runCall ::
  "string \<Rightarrow> 'ref \<Rightarrow> vfsCall \<Rightarrow> VirtualFileSystem \<times> 'ref hookRegistry
     \<Rightarrow> VirtualFileSystem \<times> 'ref hookRegistry" where
  "runCall cwd self (CallAddFile filePath content) st =
     (snd (addFile cwd filePath content (fst st)), snd st)"
| "runCall cwd self (CallAddDirectory dirPath populate) st =
     (snd (addDirectory cwd dirPath populate (fst st)), snd st)"
| "runCall cwd self (CallRemove entryPath) st = (snd (remove cwd entryPath (fst st)), snd st)"
| "runCall cwd self (CallActivate call) st = activate cwd self call st"

fun runCalls ::
  "string \<Rightarrow> 'ref \<Rightarrow> vfsCall list \<Rightarrow> VirtualFileSystem \<times> 'ref hookRegistry
     \<Rightarrow> VirtualFileSystem \<times> 'ref hookRegistry" where
  "runCalls cwd self [] st = st"
| "runCalls cwd self (call # calls) st = runCalls cwd self calls (runCall cwd self call st)"

text \<open>
  \<open>touches cwd vfs call segments\<close>: the call, made on the instance \<open>vfs\<close>, removes or
  overwrites the entry at the path \<open>segments\<close> of the tree or one of its ancestors.
  \<open>addFile\<close> and \<open>addDirectory\<close> write at the segments of their normalised path
  (\<open>addDirectory\<close> at the root replaces the root when a populate function is passed);
  \<open>remove\<close> deletes the base name of its path from the directory its parent path
  resolves to; the activation calls do not change the tree. \<open>untouched\<close> says this of
  no call of a sequence, each taken in the state in which it is made.
\<close>

fun touches :: "string \<Rightarrow> VirtualFileSystem \<Rightarrow> vfsCall \<Rightarrow> string list \<Rightarrow> bool" where
  "touches cwd vfs (CallAddFile filePath content) target =
     (let segments = splitPath (normalizePath cwd filePath) in
      segments \<noteq> [] \<and> prefix segments target)"
| "touches cwd vfs (CallAddDirectory dirPath populate) target =
     (let segments = splitPath (normalizePath cwd dirPath) in
      if segments = [] then populate else prefix segments target)"
| "touches cwd vfs (CallRemove entryPath) target =
     (let normalized = normalizePath cwd entryPath in
      case getParentPath normalized of
        None \<Rightarrow> False
      | Some parentPath \<Rightarrow>
          (case vfsPathOf cwd vfs parentPath of
             None \<Rightarrow> False
           | Some vfsPath \<Rightarrow> prefix (splitPath vfsPath @ [getBaseName normalized]) target))"
| "touches cwd vfs (CallActivate call) target = False"

fun untouched ::
  "string \<Rightarrow> 'ref \<Rightarrow> vfsCall list \<Rightarrow> VirtualFileSystem \<times> 'ref hookRegistry
     \<Rightarrow> string list \<Rightarrow> bool" where
  "untouched cwd self [] st target = True"
| "untouched cwd self (call # calls) st target =
     (\<not> touches cwd (fst st) call target
      \<and> untouched cwd self calls (runCall cwd self call st) target)"

text \<open>
  The mount point of a mounted instance is a normalised path, as \<open>mount\<close> stores it.
\<close>

definition mountPointNormalized :: "string \<Rightarrow> VirtualFileSystem \<Rightarrow> bool" where
  "mountPointNormalized cwd vfs =
     (if kMounted vfs
      then (case kMountPoint vfs of
              Some mountPoint \<Rightarrow> normalizePath cwd mountPoint = mountPoint
            | None \<Rightarrow> False)
      else True)"

subsection \<open>Dispatch\<close>



fun findVFSForReadLoop ::
  "(string \<Rightarrow> string \<Rightarrow> error + string) \<Rightarrow> string \<Rightarrow> string \<Rightarrow> string \<Rightarrow> readOptions
     \<Rightarrow> VirtualFileSystem list \<Rightarrow> error + (VirtualFileSystem \<times> fileData) option" where
  "findVFSForReadLoop toString cwd filename normalized options [] = Inr None"
| "findVFSForReadLoop toString cwd filename normalized options (vfs # rest) =
     (if shouldHandle cwd vfs normalized then
        (if existsSync cwd vfs normalized then
           (let statResult = internalModuleStat cwd vfs normalized in
            if statResult \<noteq> 0 then Inr None
            else
              (case readFileSync toString cwd vfs normalized options of
                 Inr content \<Rightarrow> Inr (Some (vfs, content))
               | Inl e \<Rightarrow>
                   if kMounted vfs then Inl e
                   else findVFSForReadLoop toString cwd filename normalized options rest))
         else if kMounted vfs then Inl (createENOENT ''open'' filename)
         else findVFSForReadLoop toString cwd filename normalized options rest)
      else findVFSForReadLoop toString cwd filename normalized options rest)"

definition findVFSForRead ::
  "(string \<Rightarrow> string \<Rightarrow> error + string) \<Rightarrow> string \<Rightarrow> VirtualFileSystem list \<Rightarrow> string
     \<Rightarrow> readOptions \<Rightarrow> error + (VirtualFileSystem \<times> fileData) option" where
  "findVFSForRead toString cwd activeList filename options =
     findVFSForReadLoop toString cwd filename (normalizePath cwd filename) options activeList"

fun findVFSForRealpathLoop ::
  "string \<Rightarrow> string \<Rightarrow> string \<Rightarrow> VirtualFileSystem list
     \<Rightarrow> error + (VirtualFileSystem \<times> string) option" where
  "findVFSForRealpathLoop cwd filename normalized [] = Inr None"
| "findVFSForRealpathLoop cwd filename normalized (vfs # rest) =
     (if shouldHandle cwd vfs normalized then
        (if existsSync cwd vfs normalized then
           (case realpathSync cwd vfs normalized of
              Inr realpath \<Rightarrow> Inr (Some (vfs, realpath))
            | Inl e \<Rightarrow>
                if kMounted vfs then Inl e
                else findVFSForRealpathLoop cwd filename normalized rest)
         else if kMounted vfs then Inl (createENOENT ''realpath'' filename)
         else findVFSForRealpathLoop cwd filename normalized rest)
      else findVFSForRealpathLoop cwd filename normalized rest)"

definition findVFSForRealpath ::
  "string \<Rightarrow> VirtualFileSystem list \<Rightarrow> string \<Rightarrow> error + (VirtualFileSystem \<times> string) option" where
  "findVFSForRealpath cwd activeList filename =
     findVFSForRealpathLoop cwd filename (normalizePath cwd filename) activeList"

fun findVFSForFsStatLoop ::
  "(entry \<Rightarrow> 'stats) \<Rightarrow> string \<Rightarrow> string \<Rightarrow> string \<Rightarrow> VirtualFileSystem list
     \<Rightarrow> error + (VirtualFileSystem \<times> 'stats) option" where
  "findVFSForFsStatLoop getStats cwd filename normalized [] = Inr None"
| "findVFSForFsStatLoop getStats cwd filename normalized (vfs # rest) =
     (if shouldHandle cwd vfs normalized then
        (if existsSync cwd vfs normalized then
           (case statSync getStats cwd vfs normalized of
              Inr stats \<Rightarrow> Inr (Some (vfs, stats))
            | Inl e \<Rightarrow>
                if kMounted vfs then Inl e
                else findVFSForFsStatLoop getStats cwd filename normalized rest)
         else if kMounted vfs then Inl (createENOENT ''stat'' filename)
         else findVFSForFsStatLoop getStats cwd filename normalized rest)
      else findVFSForFsStatLoop getStats cwd filename normalized rest)"

definition findVFSForFsStat ::
  "(entry \<Rightarrow> 'stats) \<Rightarrow> string \<Rightarrow> VirtualFileSystem list \<Rightarrow> string
     \<Rightarrow> error + (VirtualFileSystem \<times> 'stats) option" where
  "findVFSForFsStat getStats cwd activeList filename =
     findVFSForFsStatLoop getStats cwd filename (normalizePath cwd filename) activeList"

subsection \<open>The installed hooks\<close>

text \<open>
  The replacements that \<open>installHooks\<close> puts in place of \<open>Module._stat\<close>,
  \<open>fs.readFileSync\<close>, \<open>fs.realpathSync\<close> and \<open>fs.statSync\<close> (\<open>fs.lstatSync\<close> is
  the same with its own original). The saved originals are parameters. The path
  argument of the fs functions is a string, a URL (of which the hook takes the
  \<open>pathname\<close>) or something else, such as a file descriptor, which goes to the
  original untouched.
\<close>

datatype pathArg = PathString string | PathURL string | PathOther int


definition vfsReadFileSync ::
  "(pathArg \<Rightarrow> readOptions \<Rightarrow> error + fileData) \<Rightarrow> (string \<Rightarrow> string \<Rightarrow> error + string)
     \<Rightarrow> string \<Rightarrow> VirtualFileSystem list \<Rightarrow> pathArg \<Rightarrow> readOptions \<Rightarrow> error + fileData" where
  "vfsReadFileSync originalReadFileSync toString cwd activeList path options =
     (case path of
        PathOther fd \<Rightarrow> originalReadFileSync path options
      | PathString pathStr \<Rightarrow>
          (case findVFSForRead toString cwd activeList pathStr options of
             Inl e \<Rightarrow> Inl e
           | Inr (Some vfsResult) \<Rightarrow> Inr (snd vfsResult)
           | Inr None \<Rightarrow> originalReadFileSync path options)
      | PathURL pathStr \<Rightarrow>
          (case findVFSForRead toString cwd activeList pathStr options of
             Inl e \<Rightarrow> Inl e
           | Inr (Some vfsResult) \<Rightarrow> Inr (snd vfsResult)
           | Inr None \<Rightarrow> originalReadFileSync path options))"

definition vfsRealpathSync ::
  "(pathArg \<Rightarrow> error + string) \<Rightarrow> string \<Rightarrow> VirtualFileSystem list \<Rightarrow> pathArg
     \<Rightarrow> error + string" where
  "vfsRealpathSync originalRealpathSync cwd activeList path =
     (case path of
        PathOther fd \<Rightarrow> originalRealpathSync path
      | PathString pathStr \<Rightarrow>
          (case findVFSForRealpath cwd activeList pathStr of
             Inl e \<Rightarrow> Inl e
           | Inr (Some vfsResult) \<Rightarrow> Inr (snd vfsResult)
           | Inr None \<Rightarrow> originalRealpathSync path)
      | PathURL pathStr \<Rightarrow>
          (case findVFSForRealpath cwd activeList pathStr of
             Inl e \<Rightarrow> Inl e
           | Inr (Some vfsResult) \<Rightarrow> Inr (snd vfsResult)
           | Inr None \<Rightarrow> originalRealpathSync path))"

definition vfsStatSync ::
  "(pathArg \<Rightarrow> error + 'stats) \<Rightarrow> (entry \<Rightarrow> 'stats) \<Rightarrow> string \<Rightarrow> VirtualFileSystem list
     \<Rightarrow> pathArg \<Rightarrow> error + 'stats" where
  "vfsStatSync originalStatSync getStats cwd activeList path =
     (case path of
        PathOther fd \<Rightarrow> originalStatSync path
      | PathString pathStr \<Rightarrow>
          (case findVFSForFsStat getStats cwd activeList pathStr of
             Inl e \<Rightarrow> Inl e
           | Inr (Some vfsResult) \<Rightarrow> Inr (snd vfsResult)
           | Inr None \<Rightarrow> originalStatSync path)
      | PathURL pathStr \<Rightarrow>
          (case findVFSForFsStat getStats cwd activeList pathStr of
             Inl e \<Rightarrow> Inl e
           | Inr (Some vfsResult) \<Rightarrow> Inr (snd vfsResult)
           | Inr None \<Rightarrow> originalStatSync path))"

section \<open>Example instances\<close>

text \<open>
  Instances used to evaluate the operations: one tree holding the file \<open>/a.txt\<close> with
  the fixed content \<open>hi\<close>, unmounted, in overlay mode and mounted at \<open>/sea\<close>; the
  same file backed by an asynchronous-only provider, one that delivers, one that fails and
  one in an overlay; an overlay holding the file
  \<open>/sea/missing.txt\<close>; a second instance mounted at \<open>/sea\<close>, whose \<open>a.txt\<close> is a
  directory; an empty registry of references; and a decoder that knows \<open>utf8\<close> only.
\<close>

definition exampleUnmounted :: VirtualFileSystem where
  "exampleUnmounted =
     \<lparr> kRoot = VirtualDirectory ''/'' [(''a.txt'', VirtualFile ''/a.txt'' (FixedBytes ''hi''))],
       kMountPoint = None, kMounted = False, kOverlay = False, kFallthrough = True \<rparr>"

definition exampleOverlay :: VirtualFileSystem where
  "exampleOverlay = exampleUnmounted\<lparr>kOverlay := True\<rparr>"

definition exampleMounted :: VirtualFileSystem where
  "exampleMounted = exampleUnmounted\<lparr>kMountPoint := Some ''/sea'', kMounted := True\<rparr>"

definition exampleAsync :: VirtualFileSystem where
  "exampleAsync =
     \<lparr> kRoot = VirtualDirectory ''/''
                 [(''a.txt'', VirtualFile ''/a.txt'' (AsyncProvider (Inr ''hi'')))],
       kMountPoint = None, kMounted = False, kOverlay = False, kFallthrough = True \<rparr>"

definition exampleAsyncFailing :: VirtualFileSystem where
  "exampleAsyncFailing =
     \<lparr> kRoot = VirtualDirectory ''/''
                 [(''a.txt'', VirtualFile ''/a.txt'' (AsyncProvider (Inl (HostError ''boom''))))],
       kMountPoint = None, kMounted = False, kOverlay = False, kFallthrough = True \<rparr>"

definition exampleOverlayAsync :: VirtualFileSystem where
  "exampleOverlayAsync =
     \<lparr> kRoot = VirtualDirectory ''/''
                 [(''a.txt'', VirtualFile ''/a.txt'' (AsyncProvider (Inr ''deferred'')))],
       kMountPoint = None, kMounted = False, kOverlay = True, kFallthrough = True \<rparr>"

definition exampleOverlaySea :: VirtualFileSystem where
  "exampleOverlaySea =
     \<lparr> kRoot = VirtualDirectory ''/''
                 [(''sea'', VirtualDirectory ''/sea''
                     [(''missing.txt'', VirtualFile ''/sea/missing.txt'' (FixedBytes ''late''))])],
       kMountPoint = None, kMounted = False, kOverlay = True, kFallthrough = True \<rparr>"

definition exampleMountedOther :: VirtualFileSystem where
  "exampleMountedOther =
     \<lparr> kRoot = VirtualDirectory ''/'' [(''a.txt'', VirtualDirectory ''/a.txt'' [])],
       kMountPoint = Some ''/sea'', kMounted = True, kOverlay = False, kFallthrough = True \<rparr>"

definition exampleRegistry :: "nat hookRegistry" where
  "exampleRegistry = \<lparr> activeVFSList = [], hooksInstalled = False \<rparr>"

definition exampleToString :: "string \<Rightarrow> string \<Rightarrow> error + string" where
  "exampleToString content encoding =
     (if encoding = ''utf8'' then Inr content else Inl (HostError ''ERR_UNKNOWN_ENCODING''))"

text \<open>
  A sequence of calls on one instance: \<open>addDirectory '/b'\<close> on a new instance
  (\<open>exampleEarlier\<close>), then \<open>addFile '/a.txt'\<close> (\<open>exampleAdded\<close>), then the calls
  \<open>exampleLater\<close>, none of which is at \<open>/a.txt\<close> (\<open>exampleFinal\<close>).
\<close>

definition exampleEarlier :: VirtualFileSystem where
  "exampleEarlier =
     \<lparr> kRoot = VirtualDirectory ''/'' [(''b'', VirtualDirectory ''/b'' [])],
       kMountPoint = None, kMounted = False, kOverlay = False, kFallthrough = True \<rparr>"

definition exampleAdded :: VirtualFileSystem where
  "exampleAdded =
     \<lparr> kRoot = VirtualDirectory ''/''
                 [(''b'', VirtualDirectory ''/b'' []),
                  (''a.txt'', VirtualFile ''/a.txt'' (FixedBytes ''hi''))],
       kMountPoint = None, kMounted = False, kOverlay = False, kFallthrough = True \<rparr>"

definition exampleLater :: "vfsCall list" where
  "exampleLater =
     [CallAddFile ''/b/c.txt'' (FixedBytes ''x''), CallRemove ''/b/c.txt'',
      CallAddDirectory ''/d'' False]"

definition exampleFinal :: VirtualFileSystem where
  "exampleFinal =
     \<lparr> kRoot = VirtualDirectory ''/''
                 [(''b'', VirtualDirectory ''/b'' []),
                  (''a.txt'', VirtualFile ''/a.txt'' (FixedBytes ''hi'')),
                  (''d'', VirtualDirectory ''/d'' [])],
       kMountPoint = None, kMounted = False, kOverlay = False, kFallthrough = True \<rparr>"

section \<open>Properties of the path router\<close>

subsection \<open>Splitting, joining and normalising\<close>

lemma js_split_not_Nil: "js_split c s \<noteq> []"
  by (induction s) (auto split: list.splits)

lemma js_split_no_sep: "t \<in> set (js_split c s) \<Longrightarrow> c \<notin> set t"
  by (induction s arbitrary: t) (auto split: if_splits list.splits)

lemma js_split_plain: "c \<notin> set s \<Longrightarrow> js_split c s = [s]"
  by (induction s) auto

lemma js_split_append_sep:
  "c \<notin> set s \<Longrightarrow> js_split c (s @ c # r) = s # js_split c r"
  by (induction s) (auto split: list.splits)

lemma js_split_join:
  "segs \<noteq> [] \<Longrightarrow> \<forall>t\<in>set segs. c \<notin> set t \<Longrightarrow> js_split c (js_join c segs) = segs"
  by (induction c segs rule: js_join.induct) (auto simp: js_split_plain js_split_append_sep)

lemma normalizeString_clean_id:
  "\<forall>t\<in>set ss. cleanSegment t \<Longrightarrow> normalizeString res ss = res @ ss"
  by (induction ss arbitrary: res) (auto simp: cleanSegment_def)


lemma normalizeString_clean:
  "\<forall>t\<in>set res. cleanSegment t \<and> c \<notin> set t \<Longrightarrow> \<forall>t\<in>set ss. c \<notin> set t \<Longrightarrow>
   \<forall>t\<in>set (normalizeString res ss). cleanSegment t \<and> c \<notin> set t"
proof (induction ss arbitrary: res)
  case Nil
  then show ?case by simp
next
  case (Cons s ss)
  have rest: "\<forall>t\<in>set ss. c \<notin> set t"
    using Cons.prems(2) by simp
  have b: "\<forall>t\<in>set (butlast res). cleanSegment t \<and> c \<notin> set t"
    using Cons.prems(1) by (meson in_set_butlastD)
  consider (skip) "s = [] \<or> s = ''.''" | (up) "s = ''..''" | (keep) "cleanSegment s"
    unfolding cleanSegment_def by blast
  then show ?case
  proof cases
    case skip
    then show ?thesis using Cons.IH[OF Cons.prems(1) rest] by auto
  next
    case up
    then show ?thesis using Cons.IH[OF b rest] by simp
  next
    case keep
    have a: "\<forall>t\<in>set (res @ [s]). cleanSegment t \<and> c \<notin> set t"
      using Cons.prems keep by simp
    from keep have "normalizeString res (s # ss) = normalizeString (res @ [s]) ss"
      by (simp add: cleanSegment_def)
    then show ?thesis using Cons.IH[OF a rest] by simp
  qed
qed

lemma path_resolve_form:
  "\<exists>segs. path_resolve cwd p = CHR ''/'' # js_join CHR ''/'' segs
         \<and> (\<forall>t\<in>set segs. cleanSegment t \<and> CHR ''/'' \<notin> set t)"
proof -
  let ?full = "if p \<noteq> [] \<and> hd p = CHR ''/'' then p else cwd @ CHR ''/'' # p"
  have "\<forall>t\<in>set (normalizeString [] (js_split CHR ''/'' ?full)). cleanSegment t \<and> CHR ''/'' \<notin> set t"
    by (rule normalizeString_clean) (simp_all add: js_split_no_sep)
  then show ?thesis
    unfolding path_resolve_def by blast
qed

lemma path_resolve_canonical:
  assumes "\<forall>t\<in>set segs. cleanSegment t \<and> CHR ''/'' \<notin> set t"
  shows "path_resolve cwd (CHR ''/'' # js_join CHR ''/'' segs) = CHR ''/'' # js_join CHR ''/'' segs"
proof (cases "segs = []")
  case True
  then show ?thesis by (simp add: path_resolve_def)
next
  case False
  have sp: "js_split CHR ''/'' (js_join CHR ''/'' segs) = segs"
    using False assms by (simp add: js_split_join)
  have "normalizeString [] ([] # segs) = segs"
    using assms by (simp add: normalizeString_clean_id)
  then show ?thesis
    by (simp add: path_resolve_def sp)
qed

lemma js_join_last:
  "segs \<noteq> [] \<Longrightarrow> last segs \<noteq> [] \<Longrightarrow> js_join c segs \<noteq> [] \<and> last (js_join c segs) = last (last segs)"
  by (induction c segs rule: js_join.induct) auto

lemma normalizePath_eq_resolve: "normalizePath cwd p = path_resolve cwd p"
proof -
  obtain segs where r: "path_resolve cwd p = CHR ''/'' # js_join CHR ''/'' segs"
    and cl: "\<forall>t\<in>set segs. cleanSegment t \<and> CHR ''/'' \<notin> set t"
    using path_resolve_form by blast
  show ?thesis
  proof (cases "segs = []")
    case True
    then show ?thesis by (simp add: normalizePath_def r)
  next
    case False
    then have l: "last segs \<in> set segs" by simp
    then have ne: "last segs \<noteq> []" and ns: "CHR ''/'' \<notin> set (last segs)"
      using cl by (auto simp: cleanSegment_def)
    have j: "js_join CHR ''/'' segs \<noteq> []" "last (js_join CHR ''/'' segs) = last (last segs)"
      using js_join_last[OF False ne] by auto
    have "last (last segs) \<in> set (last segs)" using ne by simp
    then have "last (js_join CHR ''/'' segs) \<noteq> CHR ''/''"
      using ns j by metis
    then have "\<not> StringPrototypeEndsWith (CHR ''/'' # js_join CHR ''/'' segs) ''/''"
      using j(1) by (auto simp: StringPrototypeEndsWith_def drop_Cons' last_drop
                          dest!: arg_cong[where f = last] split: if_splits)
    then show ?thesis by (simp add: normalizePath_def r)
  qed
qed

lemma normalizePath_idem: "normalizePath cwd (normalizePath cwd p) = normalizePath cwd p"
proof -
  obtain segs where r: "path_resolve cwd p = CHR ''/'' # js_join CHR ''/'' segs"
    and cl: "\<forall>t\<in>set segs. cleanSegment t \<and> CHR ''/'' \<notin> set t"
    using path_resolve_form by blast
  show ?thesis
    by (simp add: normalizePath_eq_resolve r path_resolve_canonical[OF cl])
qed

text \<open>
  C8. \<open>normalizePath\<close> is idempotent: for every path \<open>p\<close>, normalising the
  normalised path returns it unchanged.
\<close>

theorem normalizePath_idempotent:
  "normalizePath cwd (normalizePath cwd p) = normalizePath cwd p"
  by (rule normalizePath_idem)

subsection \<open>Mount-point containment\<close>

lemma StringPrototypeStartsWith_iff:
  "StringPrototypeStartsWith s t \<longleftrightarrow> (\<exists>r. s = t @ r)"
proof
  assume "StringPrototypeStartsWith s t"
  then have "s = t @ drop (length t) s"
    by (metis StringPrototypeStartsWith_def append_take_drop_id)
  then show "\<exists>r. s = t @ r" ..
next
  assume "\<exists>r. s = t @ r"
  then show "StringPrototypeStartsWith s t"
    by (auto simp: StringPrototypeStartsWith_def)
qed

text \<open>
  C7. For every path \<open>p\<close> and mount prefix \<open>m\<close>, \<open>isUnderMountPoint p m\<close> holds
  exactly when \<open>p\<close> equals \<open>m\<close> or \<open>p\<close> is \<open>m\<close>, then a path separator, then any
  rest; and the path \<open>/seaside\<close> is not under the mount prefix \<open>/sea\<close>.
\<close>

theorem isUnderMountPoint_boundary:
  "(isUnderMountPoint p m \<longleftrightarrow> p = m \<or> (\<exists>r. p = m @ CHR ''/'' # r))
   \<and> \<not> isUnderMountPoint ''/seaside'' ''/sea''"
proof
  show "isUnderMountPoint p m \<longleftrightarrow> p = m \<or> (\<exists>r. p = m @ CHR ''/'' # r)"
    by (simp add: isUnderMountPoint_def StringPrototypeStartsWith_iff)
  show "\<not> isUnderMountPoint ''/seaside'' ''/sea''"
    by (simp add: isUnderMountPoint_def StringPrototypeStartsWith_def)
qed

section \<open>Properties of the virtual file system\<close>

subsection \<open>Evaluation and resolution\<close>

lemmas example_defs = exampleUnmounted_def exampleOverlay_def exampleMounted_def
  exampleAsync_def exampleAsyncFailing_def exampleOverlayAsync_def
  exampleOverlaySea_def exampleMountedOther_def exampleRegistry_def exampleToString_def

lemmas eval_defs = newVirtualFileSystem_def existsSync_def resolveEntry_def walkFromRoot_def
  normalizePath_def path_resolve_def splitPath_def isUnderMountPoint_def getRelativePath_def
  StringPrototypeStartsWith_def StringPrototypeEndsWith_def createENOENT_def createEISDIR_def
  Let_def

lemma resolveEntry_normalized:
  "resolveEntry cwd vfs (normalizePath cwd p) = resolveEntry cwd vfs p"
  by (simp add: resolveEntry_def normalizePath_idem)

subsection \<open>Routing predicate\<close>

text \<open>
  C2. For every path \<open>p\<close>: an instance that is neither mounted nor in overlay mode
  never handles \<open>p\<close>; in overlay mode \<open>shouldHandle p\<close> holds exactly when \<open>p\<close>
  resolves to an entry of the tree (\<open>existsSync p\<close>); in mounted mode, with mount point
  \<open>m\<close>, it holds exactly when the normalised \<open>p\<close> is under \<open>m\<close>, whether or not an
  entry exists there.
\<close>

theorem shouldHandle_by_mode:
  "(\<not> kMounted vfs \<and> \<not> kOverlay vfs \<longrightarrow> \<not> shouldHandle cwd vfs p)
   \<and> (kOverlay vfs \<longrightarrow> shouldHandle cwd vfs p = existsSync cwd vfs p)
   \<and> (kMounted vfs \<and> \<not> kOverlay vfs \<and> kMountPoint vfs = Some m \<and> m \<noteq> [] \<longrightarrow>
        shouldHandle cwd vfs p = isUnderMountPoint (normalizePath cwd p) m)"
  by (simp add: shouldHandle_def existsSync_def resolveEntry_normalized)

theorem shouldHandle_by_mode_witness:
  "(\<not> kMounted exampleUnmounted \<and> \<not> kOverlay exampleUnmounted
     \<and> \<not> shouldHandle ''/'' exampleUnmounted ''/a.txt'')
   \<and> (kOverlay exampleOverlay
     \<and> shouldHandle ''/'' exampleOverlay ''/a.txt'' \<and> existsSync ''/'' exampleOverlay ''/a.txt''
     \<and> \<not> shouldHandle ''/'' exampleOverlay ''/b.txt'' \<and> \<not> existsSync ''/'' exampleOverlay ''/b.txt'')
   \<and> (kMounted exampleMounted \<and> \<not> kOverlay exampleMounted
     \<and> kMountPoint exampleMounted = Some ''/sea''
     \<and> shouldHandle ''/'' exampleMounted ''/sea/missing.txt''
     \<and> \<not> existsSync ''/'' exampleMounted ''/sea/missing.txt''
     \<and> \<not> shouldHandle ''/'' exampleMounted ''/seaside'')"
  using shouldHandle_by_mode [of exampleUnmounted "''/''" "''/a.txt''"]
    shouldHandle_by_mode [of exampleOverlay "''/''" "''/a.txt''"]
    shouldHandle_by_mode [of exampleOverlay "''/''" "''/b.txt''"]
    shouldHandle_by_mode [of exampleMounted "''/''" "''/sea/missing.txt''" "''/sea''"]
    shouldHandle_by_mode [of exampleMounted "''/''" "''/seaside''" "''/sea''"]
  by (simp add: example_defs eval_defs)

subsection \<open>Existence probe\<close>

text \<open>
  C3, as the code has it. \<open>has p\<close> goes through \<open>_resolveEntry\<close> and so through the
  translation by the mount point: it agrees with \<open>existsSync p\<close>; for a fixed tree it
  gives the same result on any two instances that are not mounted (unmounted or overlay),
  where \<open>p\<close> is read as a path inside the tree; on an instance mounted at \<open>m\<close> it
  holds exactly when the normalised \<open>p\<close> is under \<open>m\<close> and the path relative to
  \<open>m\<close> leads to an entry.
\<close>

theorem has_follows_resolveEntry:
  "has cwd vfs p = existsSync cwd vfs p
   \<and> (kRoot vfs = kRoot vfs' \<and> \<not> kMounted vfs \<and> \<not> kMounted vfs' \<longrightarrow>
        has cwd vfs p = has cwd vfs' p)
   \<and> (kMounted vfs \<and> kMountPoint vfs = Some m \<and> m \<noteq> [] \<longrightarrow>
        has cwd vfs p =
          (isUnderMountPoint (normalizePath cwd p) m
           \<and> walkFromRoot vfs (getRelativePath (normalizePath cwd p) m) \<noteq> None))"
proof (intro conjI impI)
  show "has cwd vfs p = existsSync cwd vfs p"
    by (simp add: has_def existsSync_def resolveEntry_normalized)
next
  assume a: "kRoot vfs = kRoot vfs' \<and> \<not> kMounted vfs \<and> \<not> kMounted vfs'"
  then have "resolveEntry cwd vfs p = resolveEntry cwd vfs' p"
    by (simp add: resolveEntry_def walkFromRoot_def Let_def split: option.splits)
  then show "has cwd vfs p = has cwd vfs' p"
    by (simp add: has_def resolveEntry_normalized)
next
  assume "kMounted vfs \<and> kMountPoint vfs = Some m \<and> m \<noteq> []"
  then show "has cwd vfs p =
          (isUnderMountPoint (normalizePath cwd p) m
           \<and> walkFromRoot vfs (getRelativePath (normalizePath cwd p) m) \<noteq> None)"
    by (simp add: has_def resolveEntry_normalized) (simp add: resolveEntry_def Let_def)
qed

theorem has_follows_resolveEntry_witness:
  "kRoot exampleUnmounted = kRoot exampleOverlay
   \<and> \<not> kMounted exampleUnmounted \<and> \<not> kMounted exampleOverlay
   \<and> has ''/'' exampleUnmounted ''/a.txt'' \<and> has ''/'' exampleOverlay ''/a.txt''
   \<and> kMounted exampleMounted \<and> kMountPoint exampleMounted = Some ''/sea''
   \<and> has ''/'' exampleMounted ''/sea/a.txt''
   \<and> isUnderMountPoint (normalizePath ''/'' ''/sea/a.txt'') ''/sea''"
  using has_follows_resolveEntry [of "''/''" exampleUnmounted "''/a.txt''" exampleOverlay]
    has_follows_resolveEntry [of "''/''" exampleMounted "''/sea/a.txt''" exampleOverlay "''/sea''"]
  by (simp add: example_defs has_def eval_defs)

text \<open>
  C3 as stated fails: with the same tree, \<open>has\<close> finds \<open>/a.txt\<close> on the unmounted
  instance and does not find it on the instance mounted at \<open>/sea\<close>.
\<close>

theorem has_mount_dependent_counterexample:
  "kRoot exampleMounted = kRoot exampleUnmounted
   \<and> has ''/'' exampleUnmounted ''/a.txt''
   \<and> \<not> has ''/'' exampleMounted ''/a.txt''"
  by (simp add: example_defs has_def eval_defs)

subsection \<open>Asynchronous and synchronous reads\<close>

text \<open>
  C4, as the code has it. For every path and options the callback form and the promise
  form of \<open>readFile\<close> give the same outcome; they give the outcome of
  \<open>readFileSync\<close> whenever the path does not resolve to a file backed by an
  asynchronous-only provider; and for a file backed by an asynchronous-only provider
  \<open>readFileSync\<close> fails with \<open>ContentUnavailable\<close> while the asynchronous forms
  deliver the outcome of the provider: its error, or its content handled by the options.
\<close>

theorem readFile_matches_readFileSync:
  "promises_readFile toString cwd vfs p options = readFile toString cwd vfs p options
   \<and> ((\<forall>path r. resolveEntry cwd vfs p \<noteq> Some (VirtualFile path (AsyncProvider r))) \<longrightarrow>
        readFile toString cwd vfs p options = readFileSync toString cwd vfs p options)
   \<and> (resolveEntry cwd vfs p = Some (VirtualFile path (AsyncProvider r)) \<longrightarrow>
        readFileSync toString cwd vfs p options = Inl ContentUnavailable
        \<and> readFile toString cwd vfs p options =
            (case r of
               Inl err \<Rightarrow> Inl err
             | Inr content \<Rightarrow> handleEncoding toString options content))"
proof (intro conjI impI)
  show "promises_readFile toString cwd vfs p options = readFile toString cwd vfs p options"
    by (simp add: promises_readFile_def readFile_def)
next
  assume a: "\<forall>path r. resolveEntry cwd vfs p \<noteq> Some (VirtualFile path (AsyncProvider r))"
  show "readFile toString cwd vfs p options = readFileSync toString cwd vfs p options"
  proof (cases "resolveEntry cwd vfs p")
    case None
    then show ?thesis by (simp add: readFile_def readFileSync_def)
  next
    case (Some e)
    show ?thesis
    proof (cases e)
      case (VirtualDirectory path children)
      with Some show ?thesis by (simp add: readFile_def readFileSync_def)
    next
      case (VirtualFile path c)
      with Some a have "\<forall>r. c \<noteq> AsyncProvider r" by simp
      then have "getContent c = getContentSync c" by (cases c) simp_all
      with Some VirtualFile show ?thesis by (simp add: readFile_def readFileSync_def)
    qed
  qed
next
  assume "resolveEntry cwd vfs p = Some (VirtualFile path (AsyncProvider r))"
  then show "readFileSync toString cwd vfs p options = Inl ContentUnavailable"
    by (simp add: readFileSync_def)
next
  assume "resolveEntry cwd vfs p = Some (VirtualFile path (AsyncProvider r))"
  then show "readFile toString cwd vfs p options =
            (case r of
               Inl err \<Rightarrow> Inl err
             | Inr content \<Rightarrow> handleEncoding toString options content)"
    by (simp add: readFile_def)
qed

theorem readFile_matches_readFileSync_witness:
  "resolveEntry ''/'' exampleUnmounted ''/a.txt''
     = Some (VirtualFile ''/a.txt'' (FixedBytes ''hi''))
   \<and> readFile exampleToString ''/'' exampleUnmounted ''/a.txt'' (OptString ''utf8'') = Inr (Text ''hi'')
   \<and> readFileSync exampleToString ''/'' exampleUnmounted ''/a.txt'' (OptString ''utf8'') = Inr (Text ''hi'')
   \<and> resolveEntry ''/'' exampleAsync ''/a.txt''
     = Some (VirtualFile ''/a.txt'' (AsyncProvider (Inr ''hi'')))
   \<and> readFileSync exampleToString ''/'' exampleAsync ''/a.txt'' (OptString ''utf8'')
     = Inl ContentUnavailable
   \<and> readFile exampleToString ''/'' exampleAsync ''/a.txt'' (OptString ''utf8'') = Inr (Text ''hi'')
   \<and> resolveEntry ''/'' exampleAsyncFailing ''/a.txt''
     = Some (VirtualFile ''/a.txt'' (AsyncProvider (Inl (HostError ''boom''))))
   \<and> readFileSync exampleToString ''/'' exampleAsyncFailing ''/a.txt'' NoOptions
     = Inl ContentUnavailable
   \<and> readFile exampleToString ''/'' exampleAsyncFailing ''/a.txt'' NoOptions
     = Inl (HostError ''boom'')"
proof -
  have r: "resolveEntry ''/'' exampleUnmounted ''/a.txt''
             = Some (VirtualFile ''/a.txt'' (FixedBytes ''hi''))"
    by (simp add: example_defs eval_defs)
  have s: "readFileSync exampleToString ''/'' exampleUnmounted ''/a.txt'' (OptString ''utf8'')
             = Inr (Text ''hi'')"
    by (simp add: readFileSync_def r handleEncoding_def exampleToString_def)
  have ra: "resolveEntry ''/'' exampleAsync ''/a.txt''
             = Some (VirtualFile ''/a.txt'' (AsyncProvider (Inr ''hi'')))"
    by (simp add: example_defs eval_defs)
  have rf: "resolveEntry ''/'' exampleAsyncFailing ''/a.txt''
             = Some (VirtualFile ''/a.txt'' (AsyncProvider (Inl (HostError ''boom''))))"
    by (simp add: example_defs eval_defs)
  show ?thesis
    using readFile_matches_readFileSync
            [of exampleToString "''/''" exampleUnmounted "''/a.txt''" "OptString ''utf8''"]
          readFile_matches_readFileSync
            [of exampleToString "''/''" exampleAsync "''/a.txt''" "OptString ''utf8''"
                "''/a.txt''" "Inr ''hi''"]
          readFile_matches_readFileSync
            [of exampleToString "''/''" exampleAsyncFailing "''/a.txt''" NoOptions
                "''/a.txt''" "Inl (HostError ''boom'')"]
    by (simp add: r s ra rf handleEncoding_def exampleToString_def)
qed

text \<open>
  C4 as stated fails for a deferred provider: on a file backed by an asynchronous-only
  provider \<open>readFileSync\<close> fails with \<open>ContentUnavailable\<close> while both
  asynchronous forms deliver the content.
\<close>

theorem readFile_async_provider_counterexample:
  "readFileSync exampleToString ''/'' exampleAsync ''/a.txt'' NoOptions = Inl ContentUnavailable
   \<and> readFile exampleToString ''/'' exampleAsync ''/a.txt'' NoOptions = Inr (Buffer ''hi'')
   \<and> promises_readFile exampleToString ''/'' exampleAsync ''/a.txt'' NoOptions
       = Inr (Buffer ''hi'')"
  by (simp add: example_defs readFileSync_def readFile_def promises_readFile_def
      handleEncoding_def eval_defs)

subsection \<open>A failing addFile\<close>

lemma addFileLoop_fresh:
  "segments \<noteq> [] \<Longrightarrow> fst (addFileLoop dn segments newFile (VirtualDirectory q [])) = None"
proof (induction segments arbitrary: dn q)
  case Nil
  then show ?case by simp
next
  case (Cons s segments)
  show ?case
  proof (cases segments)
    case Nil
    then show ?thesis by simp
  next
    case more: (Cons t ts)
    then have "fst (addFileLoop (dn @ [s]) segments newFile
                 (VirtualDirectory (CHR ''/'' # js_join CHR ''/'' (dn @ [s])) [])) = None"
      using Cons.IH by simp
    then show ?thesis using more by (auto split: prod.splits)
  qed
qed

lemma addFileLoop_atomic:
  "addFileLoop dn segments newFile current = (Some e, current') \<Longrightarrow> current' = current"
proof (induction dn segments newFile current arbitrary: current' rule: addFileLoop.induct)
  case (1 dn segments newFile p c)
  then show ?case by simp
next
  case (2 dn newFile p children)
  then show ?case by simp
next
  case (3 dn fileName newFile p children)
  then show ?case by simp
next
  case (4 dn segment v va newFile p children)
  show ?case
  proof (cases "map_of children segment")
    case None
    have "fst (addFileLoop (dn @ [segment]) (v # va) newFile
                 (VirtualDirectory (CHR ''/'' # js_join CHR ''/'' (dn @ [segment])) [])) = None"
      by (rule addFileLoop_fresh) simp
    with "4.prems" None show ?thesis by (auto split: prod.splits)
  next
    case (Some entry)
    show ?thesis
    proof (cases "isDirectory entry")
      case False
      with "4.prems" Some show ?thesis by simp
    next
      case True
      with "4.prems" Some obtain d where
        d: "addFileLoop (dn @ [segment]) (v # va) newFile entry = (Some e, d)"
        and c: "current' = VirtualDirectory p (AList.update segment d children)"
        by (auto split: prod.splits)
      have "d = entry" using "4.IH"(2)[OF Some _ d] True by simp
      then show ?thesis using c Some by (simp add: update_triv)
    qed
  qed
qed

lemma addFile_unchanged_on_error:
  "addFile cwd p content vfs = (Some e, vfs') \<Longrightarrow> vfs' = vfs"
proof (cases "splitPath (normalizePath cwd p) = []")
  case True
  then show "addFile cwd p content vfs = (Some e, vfs') \<Longrightarrow> vfs' = vfs"
    by (simp add: addFile_def)
next
  case False
  assume a: "addFile cwd p content vfs = (Some e, vfs')"
  with False obtain root where
    l: "addFileLoop [] (splitPath (normalizePath cwd p))
          (VirtualFile (normalizePath cwd p) content) (kRoot vfs) = (Some e, root)"
    and v: "vfs' = vfs\<lparr>kRoot := root\<rparr>"
    by (auto simp: addFile_def Let_def split: prod.splits)
  from addFileLoop_atomic[OF l] v show "vfs' = vfs" by simp
qed

text \<open>
  C10. \<open>addFile\<close> is atomic on failure: whenever the call raises, the instance it
  leaves is the instance before the call, so no directory created on the way remains;
  and a path that normalises to the root always makes it raise.
\<close>

theorem addFile_atomic_on_failure:
  "(addFile cwd p content vfs = (Some e, vfs') \<longrightarrow> vfs' = vfs)
   \<and> (normalizePath cwd p = ''/'' \<longrightarrow>
        addFile cwd p content vfs = (Some (Error ''Cannot add file at root path''), vfs))"
proof (intro conjI impI)
  assume "addFile cwd p content vfs = (Some e, vfs')"
  then show "vfs' = vfs" by (rule addFile_unchanged_on_error)
next
  assume "normalizePath cwd p = ''/''"
  then show "addFile cwd p content vfs = (Some (Error ''Cannot add file at root path''), vfs)"
    by (simp add: addFile_def splitPath_def)
qed

theorem addFile_atomic_on_failure_witness:
  "addFile ''/'' ''/a.txt/x/y.txt'' (FixedBytes ''no'') exampleUnmounted
     = (Some (Error ''Cannot create file: a.txt is not a directory''), exampleUnmounted)
   \<and> normalizePath ''/'' ''/x/..'' = ''/''
   \<and> addFile ''/'' ''/x/..'' (FixedBytes ''no'') exampleUnmounted
     = (Some (Error ''Cannot add file at root path''), exampleUnmounted)"
proof -
  have a: "addFile ''/'' ''/a.txt/x/y.txt'' (FixedBytes ''no'') exampleUnmounted
     = (Some (Error ''Cannot create file: a.txt is not a directory''),
        snd (addFile ''/'' ''/a.txt/x/y.txt'' (FixedBytes ''no'') exampleUnmounted))"
    by (simp add: addFile_def example_defs eval_defs)
  have n: "normalizePath ''/'' ''/x/..'' = ''/''"
    by (simp add: eval_defs)
  show ?thesis
    using a n
      addFile_atomic_on_failure [of "''/''" "''/a.txt/x/y.txt''" "FixedBytes ''no''"
        exampleUnmounted "Error ''Cannot create file: a.txt is not a directory''"
        "snd (addFile ''/'' ''/a.txt/x/y.txt'' (FixedBytes ''no'') exampleUnmounted)"]
      addFile_atomic_on_failure [of "''/''" "''/x/..''" "FixedBytes ''no''" exampleUnmounted]
    by simp
qed

subsection \<open>Adding a file and reading it back\<close>

lemma addFileLoop_walk:
  "addFileLoop dn segments newFile current = (None, current') \<Longrightarrow> segments \<noteq> [] \<Longrightarrow>
   walk current' segments = Some newFile"
proof (induction dn segments newFile current arbitrary: current' rule: addFileLoop.induct)
  case (1 dn segments newFile p c)
  then show ?case by simp
next
  case (2 dn newFile p children)
  then show ?case by simp
next
  case (3 dn fileName newFile p children)
  then show ?case by (auto simp: update_conv')
next
  case (4 dn segment v va newFile p children)
  show ?case
  proof (cases "map_of children segment")
    case None
    with "4.prems" obtain d where
      d: "addFileLoop (dn @ [segment]) (v # va) newFile
            (VirtualDirectory (CHR ''/'' # js_join CHR ''/'' (dn @ [segment])) []) = (None, d)"
      and c: "current' = VirtualDirectory p (AList.update segment d children)"
      by (auto split: prod.splits)
    have "walk d (v # va) = Some newFile"
      using "4.IH"(1)[OF None d] by simp
    moreover have "walk current' (segment # v # va) = walk d (v # va)"
      by (simp add: c update_conv')
    ultimately show ?thesis by (simp only:)
  next
    case (Some entry)
    with "4.prems" obtain d where dir: "isDirectory entry"
      and d: "addFileLoop (dn @ [segment]) (v # va) newFile entry = (None, d)"
      and c: "current' = VirtualDirectory p (AList.update segment d children)"
      by (auto split: prod.splits if_splits)
    have "walk d (v # va) = Some newFile"
      using "4.IH"(2)[OF Some _ d] dir by simp
    moreover have "walk current' (segment # v # va) = walk d (v # va)"
      by (simp add: c update_conv')
    ultimately show ?thesis by (simp only:)
  qed
qed

lemma splitPath_root: "splitPath p = [] \<longleftrightarrow> p = ''/''"
  by (simp add: splitPath_def js_split_not_Nil)

lemma addFileLoop_keeps_file:
  "addFileLoop dn qs newFile current = (None, current') \<Longrightarrow>
   walk current ps = Some (VirtualFile x c) \<Longrightarrow> \<not> prefix qs ps \<Longrightarrow>
   walk current' ps = Some (VirtualFile x c)"
proof (induction dn qs newFile current arbitrary: current' ps rule: addFileLoop.induct)
  case (1 dn segments newFile p c)
  then show ?case by simp
next
  case (2 dn newFile p children)
  then show ?case by simp
next
  case (3 dn fileName newFile p children)
  show ?case
  proof (cases ps)
    case Nil
    with "3.prems" show ?thesis by simp
  next
    case (Cons s ss)
    with "3.prems"(3) have "s \<noteq> fileName" by auto
    with "3.prems" Cons show ?thesis by (auto simp: update_conv')
  qed
next
  case (4 dn segment v va newFile p children)
  show ?case
  proof (cases ps)
    case Nil
    with "4.prems" show ?thesis by simp
  next
    case (Cons s ss)
    show ?thesis
    proof (cases "s = segment")
      case False
      have "walk current' (s # ss) = walk (VirtualDirectory p children) (s # ss)"
        using "4.prems"(1) False
        by (auto simp: update_conv' split: option.splits prod.splits if_splits)
      then show ?thesis using "4.prems"(2) Cons by simp
    next
      case True
      from "4.prems"(2) Cons True obtain entry where
        e: "map_of children segment = Some entry" and w: "walk entry ss = Some (VirtualFile x c)"
        by (auto split: option.splits)
      have np: "\<not> prefix (v # va) ss" using "4.prems"(3) Cons True by simp
      have dir: "isDirectory entry"
        using "4.prems"(1) e by (auto split: if_splits)
      then obtain d where
        d: "addFileLoop (dn @ [segment]) (v # va) newFile entry = (None, d)"
        and c': "current' = VirtualDirectory p (AList.update segment d children)"
        using "4.prems"(1) e by (auto split: prod.splits)
      have "walk d ss = Some (VirtualFile x c)"
        using "4.IH"(2)[OF e _ d w np] dir by simp
      moreover have "walk current' (segment # ss) = walk d ss"
        by (simp add: c' update_conv')
      ultimately show ?thesis using Cons True by (simp only:)
    qed
  qed
qed

lemma addFile_mode:
  "addFile cwd p content vfs = (err, vfs') \<Longrightarrow>
   kMounted vfs' = kMounted vfs \<and> kMountPoint vfs' = kMountPoint vfs \<and> kOverlay vfs' = kOverlay vfs"
  by (auto simp: addFile_def Let_def split: if_splits prod.splits)

lemma unmounted_resolveEntry:
  "\<not> kMounted vfs \<Longrightarrow> resolveEntry cwd vfs p = walkFromRoot vfs (normalizePath cwd p)"
  by (simp add: resolveEntry_def Let_def split: option.splits)

lemma addDirectoryLoop_addFileLoop:
  "snd (addDirectoryLoop dn segments e current) = snd (addFileLoop dn segments e current)
   \<and> (fst (addDirectoryLoop dn segments e current) = None)
       = (fst (addFileLoop dn segments e current) = None)"
proof (induction dn segments e current rule: addFileLoop.induct)
  case (1 dn segments newFile p c)
  then show ?case by simp
next
  case (2 dn newFile p children)
  then show ?case by simp
next
  case (3 dn fileName newFile p children)
  then show ?case by simp
next
  case (4 dn segment v va newFile p children)
  show ?case
  proof (cases "map_of children segment")
    case None
    with "4.IH"(1) show ?thesis by (auto split: prod.splits)
  next
    case (Some entry)
    show ?thesis
    proof (cases "isDirectory entry")
      case False
      with Some show ?thesis by simp
    next
      case True
      with Some "4.IH"(2) show ?thesis by (auto split: prod.splits)
    qed
  qed
qed

lemma removeAt_keeps_file:
  "walk current ps = Some (VirtualFile x c) \<Longrightarrow> \<not> prefix (segments @ [name]) ps \<Longrightarrow>
   walk (snd (removeAt current segments name)) ps = Some (VirtualFile x c)"
proof (induction current segments name arbitrary: ps rule: removeAt.induct)
  case (1 p c segments name)
  then show ?case by simp
next
  case (2 p children name)
  show ?case
  proof (cases ps)
    case Nil
    with "2.prems" show ?thesis by simp
  next
    case (Cons s ss)
    with "2.prems"(2) have "s \<noteq> name" by auto
    with "2.prems"(1) Cons show ?thesis by (simp add: delete_conv')
  qed
next
  case (3 p children segment segments name)
  show ?case
  proof (cases ps)
    case Nil
    with "3.prems" show ?thesis by simp
  next
    case (Cons s ss)
    show ?thesis
    proof (cases "map_of children segment")
      case None
      then show ?thesis using "3.prems"(1) by simp
    next
      case (Some entry)
      obtain removed d where r: "removeAt entry segments name = (removed, d)"
        by (cases "removeAt entry segments name")
      show ?thesis
      proof (cases "s = segment")
        case False
        then show ?thesis using "3.prems"(1) Cons Some r by (simp add: update_conv')
      next
        case True
        then have w: "walk entry ss = Some (VirtualFile x c)"
          using "3.prems"(1) Cons Some by simp
        have np: "\<not> prefix (segments @ [name]) ss"
          using "3.prems"(2) Cons True by simp
        have "walk (snd (removeAt entry segments name)) ss = Some (VirtualFile x c)"
          using "3.IH"[OF Some w np] .
        then show ?thesis using Cons True Some r by (simp add: update_conv')
      qed
    qed
  qed
qed

lemma addDirectory_mode:
  "addDirectory cwd p populate vfs = (err, vfs') \<Longrightarrow>
   kMounted vfs' = kMounted vfs \<and> kMountPoint vfs' = kMountPoint vfs \<and> kOverlay vfs' = kOverlay vfs"
  by (auto simp: addDirectory_def Let_def split: if_splits prod.splits)

lemma remove_mode:
  "remove cwd p vfs = (removed, vfs') \<Longrightarrow>
   kMounted vfs' = kMounted vfs \<and> kMountPoint vfs' = kMountPoint vfs \<and> kOverlay vfs' = kOverlay vfs"
  by (auto simp: remove_def Let_def split: if_splits prod.splits option.splits)

lemma activate_root: "kRoot (fst (activate cwd self call st)) = kRoot (fst st)"
  by (cases call; cases st) (simp_all add: mount_def overlay_def unmount_def)

lemma addFile_keeps_walk:
  assumes w: "walk (kRoot vfs) ps = Some (VirtualFile x c)"
    and nt: "\<not> touches cwd vfs (CallAddFile q content) ps"
  shows "walk (kRoot (snd (addFile cwd q content vfs))) ps = Some (VirtualFile x c)"
proof (cases "splitPath (normalizePath cwd q) = []")
  case True
  then show ?thesis using w by (simp add: addFile_def)
next
  case False
  then have np: "\<not> prefix (splitPath (normalizePath cwd q)) ps"
    using nt by simp
  obtain err root where
    l: "addFileLoop [] (splitPath (normalizePath cwd q))
          (VirtualFile (normalizePath cwd q) content) (kRoot vfs) = (err, root)"
    by (cases "addFileLoop [] (splitPath (normalizePath cwd q))
          (VirtualFile (normalizePath cwd q) content) (kRoot vfs)")
  have r: "kRoot (snd (addFile cwd q content vfs)) = root"
    using False l by (simp add: addFile_def)
  show ?thesis
  proof (cases err)
    case None
    with l have "walk root ps = Some (VirtualFile x c)"
      using addFileLoop_keeps_file[OF _ w np] by simp
    then show ?thesis by (simp only: r)
  next
    case (Some e)
    with l have "root = kRoot vfs" using addFileLoop_atomic by simp
    then show ?thesis using w by (simp only: r)
  qed
qed

lemma addDirectory_keeps_walk:
  assumes w: "walk (kRoot vfs) ps = Some (VirtualFile x c)"
    and nt: "\<not> touches cwd vfs (CallAddDirectory q populate) ps"
  shows "walk (kRoot (snd (addDirectory cwd q populate vfs))) ps = Some (VirtualFile x c)"
proof (cases "splitPath (normalizePath cwd q) = []")
  case True
  then have "\<not> populate" using nt by simp
  then show ?thesis using True w by (simp add: addDirectory_def)
next
  case False
  then have np: "\<not> prefix (splitPath (normalizePath cwd q)) ps"
    using nt by simp
  let ?dir = "VirtualDirectory (normalizePath cwd q) []"
  obtain err root where
    l: "addFileLoop [] (splitPath (normalizePath cwd q)) ?dir (kRoot vfs) = (err, root)"
    by (cases "addFileLoop [] (splitPath (normalizePath cwd q)) ?dir (kRoot vfs)")
  have "snd (addDirectoryLoop [] (splitPath (normalizePath cwd q)) ?dir (kRoot vfs)) = root"
    using addDirectoryLoop_addFileLoop[of "[]" "splitPath (normalizePath cwd q)" ?dir "kRoot vfs"] l
    by simp
  then have r: "kRoot (snd (addDirectory cwd q populate vfs)) = root"
    using False by (auto simp: addDirectory_def Let_def split: prod.splits)
  show ?thesis
  proof (cases err)
    case None
    with l have "walk root ps = Some (VirtualFile x c)"
      using addFileLoop_keeps_file[OF _ w np] by simp
    then show ?thesis by (simp only: r)
  next
    case (Some e)
    with l have "root = kRoot vfs" using addFileLoop_atomic by simp
    then show ?thesis using w by (simp only: r)
  qed
qed

lemma remove_keeps_walk:
  assumes w: "walk (kRoot vfs) ps = Some (VirtualFile x c)"
    and nt: "\<not> touches cwd vfs (CallRemove q) ps"
  shows "walk (kRoot (snd (remove cwd q vfs))) ps = Some (VirtualFile x c)"
proof (cases "getParentPath (normalizePath cwd q)")
  case None
  then show ?thesis using w by (simp add: remove_def)
next
  case (Some parentPath)
  show ?thesis
  proof (cases "vfsPathOf cwd vfs parentPath")
    case None
    then show ?thesis using w Some
      by (simp add: remove_def Let_def split: option.splits)
  next
    case vp: (Some vfsPath)
    have np: "\<not> prefix (splitPath vfsPath @ [getBaseName (normalizePath cwd q)]) ps"
      using nt Some vp by simp
    have k: "walk (snd (removeAt (kRoot vfs) (splitPath vfsPath)
               (getBaseName (normalizePath cwd q)))) ps = Some (VirtualFile x c)"
      using removeAt_keeps_file[OF w np] .
    show ?thesis
      using w k Some vp
      by (auto simp: remove_def Let_def split: option.splits prod.splits)
  qed
qed

lemma runCall_keeps_walk:
  assumes "walk (kRoot (fst st)) ps = Some (VirtualFile x c)"
    and "\<not> touches cwd (fst st) call ps"
  shows "walk (kRoot (fst (runCall cwd self call st))) ps = Some (VirtualFile x c)"
proof (cases call)
  case (CallAddFile q content)
  then show ?thesis using addFile_keeps_walk[OF assms(1)] assms(2) by simp
next
  case (CallAddDirectory q populate)
  then show ?thesis using addDirectory_keeps_walk[OF assms(1)] assms(2) by simp
next
  case (CallRemove q)
  then show ?thesis using remove_keeps_walk[OF assms(1)] assms(2) by simp
next
  case (CallActivate a)
  then show ?thesis using assms(1) by (simp add: activate_root)
qed

lemma runCall_mountPointNormalized:
  assumes "mountPointNormalized cwd (fst st)"
  shows "mountPointNormalized cwd (fst (runCall cwd self call st))"
proof (cases call)
  case (CallAddFile q content)
  obtain err vfs' where a: "addFile cwd q content (fst st) = (err, vfs')"
    by (cases "addFile cwd q content (fst st)")
  from addFile_mode[OF a] assms show ?thesis
    by (simp add: CallAddFile a mountPointNormalized_def)
next
  case (CallAddDirectory q populate)
  obtain err vfs' where a: "addDirectory cwd q populate (fst st) = (err, vfs')"
    by (cases "addDirectory cwd q populate (fst st)")
  from addDirectory_mode[OF a] assms show ?thesis
    by (simp add: CallAddDirectory a mountPointNormalized_def)
next
  case (CallRemove q)
  obtain removed vfs' where a: "remove cwd q (fst st) = (removed, vfs')"
    by (cases "remove cwd q (fst st)")
  from remove_mode[OF a] assms show ?thesis
    by (simp add: CallRemove a mountPointNormalized_def)
next
  case (CallActivate a)
  then show ?thesis using assms
    by (cases a; cases st)
       (auto simp: mountPointNormalized_def mount_def overlay_def unmount_def normalizePath_idem)
qed

lemma runCalls_mountPointNormalized:
  "mountPointNormalized cwd (fst st) \<Longrightarrow>
   mountPointNormalized cwd (fst (runCalls cwd self calls st))"
proof (induction calls arbitrary: st)
  case Nil
  then show ?case by simp
next
  case (Cons call calls)
  show ?case
    using Cons.IH[OF runCall_mountPointNormalized[OF Cons.prems]] by simp
qed

lemma runCalls_keep_walk:
  "walk (kRoot (fst st)) ps = Some (VirtualFile x c) \<Longrightarrow> untouched cwd self calls st ps \<Longrightarrow>
   walk (kRoot (fst (runCalls cwd self calls st))) ps = Some (VirtualFile x c)"
proof (induction calls arbitrary: st)
  case Nil
  then show ?case by simp
next
  case (Cons call calls)
  have nt: "\<not> touches cwd (fst st) call ps"
    and rest: "untouched cwd self calls (runCall cwd self call st) ps"
    using Cons.prems(2) by simp_all
  have w: "walk (kRoot (fst (runCall cwd self call st))) ps = Some (VirtualFile x c)"
    by (rule runCall_keeps_walk[OF Cons.prems(1) nt])
  show ?case
    using Cons.IH[OF w rest] by simp
qed

lemma js_join_append:
  "segs1 \<noteq> [] \<Longrightarrow> segs2 \<noteq> [] \<Longrightarrow>
   js_join c (segs1 @ segs2) = js_join c segs1 @ c # js_join c segs2"
proof (induction c segs1 rule: js_join.induct)
  case (1 c)
  then show ?case by simp
next
  case (2 c s)
  then show ?case by (cases segs2) simp_all
next
  case (3 c s t ss)
  then show ?case by simp
qed

lemma js_join_hd:
  "segs \<noteq> [] \<Longrightarrow> hd segs \<noteq> [] \<Longrightarrow>
   js_join c segs \<noteq> [] \<and> hd (js_join c segs) = hd (hd segs)"
  by (induction c segs rule: js_join.induct) auto

lemma normalizePath_form:
  "\<exists>segs. normalizePath cwd p = CHR ''/'' # js_join CHR ''/'' segs
         \<and> (\<forall>t\<in>set segs. cleanSegment t \<and> CHR ''/'' \<notin> set t)"
  using path_resolve_form by (simp add: normalizePath_eq_resolve)

lemma normalizePath_canonical:
  "\<forall>t\<in>set segs. cleanSegment t \<and> CHR ''/'' \<notin> set t \<Longrightarrow>
   normalizePath cwd (CHR ''/'' # js_join CHR ''/'' segs) = CHR ''/'' # js_join CHR ''/'' segs"
  by (simp add: normalizePath_eq_resolve path_resolve_canonical)

lemma normalizePath_no_double_slash:
  "normalizePath cwd p \<noteq> CHR ''/'' # CHR ''/'' # r"
proof -
  obtain segs where n: "normalizePath cwd p = CHR ''/'' # js_join CHR ''/'' segs"
    and cl: "\<forall>t\<in>set segs. cleanSegment t \<and> CHR ''/'' \<notin> set t"
    using normalizePath_form by blast
  show ?thesis
  proof (cases segs)
    case Nil
    then show ?thesis using n by simp
  next
    case (Cons t ts)
    then have ne: "hd segs \<noteq> []" and ns: "CHR ''/'' \<notin> set (hd segs)"
      using cl by (auto simp: cleanSegment_def)
    have j: "js_join CHR ''/'' segs \<noteq> []" "hd (js_join CHR ''/'' segs) = hd (hd segs)"
      using js_join_hd[of segs "CHR ''/''"] Cons ne by auto
    have "hd (hd segs) \<in> set (hd segs)" using ne by simp
    then have "hd (js_join CHR ''/'' segs) \<noteq> CHR ''/''" using ns j(2) by metis
    then show ?thesis using n j(1) by (cases "js_join CHR ''/'' segs") auto
  qed
qed

lemma mounted_path:
  assumes m: "normalizePath cwd m = m" and mr: "m \<noteq> ''/''" and nr: "normalizePath cwd p \<noteq> ''/''"
  shows "normalizePath cwd (m @ normalizePath cwd p) = m @ normalizePath cwd p
         \<and> isUnderMountPoint (m @ normalizePath cwd p) m
         \<and> getRelativePath (m @ normalizePath cwd p) m = normalizePath cwd p
         \<and> m \<noteq> []"
proof -
  let ?n = "normalizePath cwd p"
  obtain segs1 where m1: "normalizePath cwd m = CHR ''/'' # js_join CHR ''/'' segs1"
    and cl1: "\<forall>t\<in>set segs1. cleanSegment t \<and> CHR ''/'' \<notin> set t"
    using normalizePath_form by blast
  obtain segs2 where n2: "?n = CHR ''/'' # js_join CHR ''/'' segs2"
    and cl2: "\<forall>t\<in>set segs2. cleanSegment t \<and> CHR ''/'' \<notin> set t"
    using normalizePath_form by blast
  have mf: "m = CHR ''/'' # js_join CHR ''/'' segs1" using m m1 by simp
  have s1: "segs1 \<noteq> []" using mf mr by auto
  have s2: "segs2 \<noteq> []" using n2 nr by auto
  have cat: "m @ ?n = CHR ''/'' # js_join CHR ''/'' (segs1 @ segs2)"
    using js_join_append[OF s1 s2, of "CHR ''/''"] mf n2 by simp
  have cl: "\<forall>t\<in>set (segs1 @ segs2). cleanSegment t \<and> CHR ''/'' \<notin> set t"
    using cl1 cl2 by auto
  have a: "normalizePath cwd (m @ ?n) = m @ ?n"
    using normalizePath_canonical[OF cl, of cwd] cat by simp
  have ne: "?n \<noteq> []" using n2 by simp
  have "\<exists>r. m @ ?n = (m @ ''/'') @ r" using n2 by simp
  then have b: "isUnderMountPoint (m @ ?n) m"
    by (simp only: isUnderMountPoint_def StringPrototypeStartsWith_iff if_True if_False split: if_splits)
       simp
  have c: "getRelativePath (m @ ?n) m = ?n"
    using ne by (simp add: getRelativePath_def)
  have d: "m \<noteq> []" using mf by simp
  show ?thesis using a b c d by simp
qed

lemma served_unmounted:
  assumes "\<not> kMounted w"
    and "walk (kRoot w) (splitPath (normalizePath cwd p)) = Some (VirtualFile x content)"
    and "normalizePath cwd p \<noteq> ''/''"
  shows "resolveEntry cwd w p = Some (VirtualFile x content)"
  using assms by (simp add: unmounted_resolveEntry walkFromRoot_def)

lemma served_mounted:
  assumes inv: "mountPointNormalized cwd w"
    and km: "kMounted w" and mp: "kMountPoint w = Some m" and mr: "m \<noteq> ''/''"
    and w: "walk (kRoot w) (splitPath (normalizePath cwd p)) = Some (VirtualFile x content)"
    and nr: "normalizePath cwd p \<noteq> ''/''"
  shows "resolveEntry cwd w (joinMountPath m (normalizePath cwd p)) = Some (VirtualFile x content)"
proof -
  have m: "normalizePath cwd m = m"
    using inv km mp by (simp add: mountPointNormalized_def)
  note f = mounted_path[OF m mr nr]
  have j: "joinMountPath m (normalizePath cwd p) = m @ normalizePath cwd p"
    using nr by (simp add: joinMountPath_def)
  show ?thesis
    using km mp w nr f by (simp add: j resolveEntry_def walkFromRoot_def)
qed

lemma mounted_at_root_hides:
  assumes km: "kMounted w" and mp: "kMountPoint w = Some ''/''"
    and nr: "normalizePath cwd q \<noteq> ''/''"
  shows "resolveEntry cwd w q = None"
proof -
  have "\<not> StringPrototypeStartsWith (normalizePath cwd q) ''//''"
    using normalizePath_no_double_slash[of cwd q]
    by (auto simp: StringPrototypeStartsWith_iff)
  then have "\<not> isUnderMountPoint (normalizePath cwd q) ''/''"
    using nr by (simp add: isUnderMountPoint_def)
  then show ?thesis
    using km mp by (simp add: resolveEntry_def)
qed

lemma addFile_walk:
  assumes "addFile cwd p content vfs = (None, vfs')"
  shows "normalizePath cwd p \<noteq> ''/''
         \<and> walk (kRoot vfs') (splitPath (normalizePath cwd p))
             = Some (VirtualFile (normalizePath cwd p) content)"
proof -
  let ?n = "normalizePath cwd p"
  from assms obtain root where seg: "splitPath ?n \<noteq> []"
    and loop: "addFileLoop [] (splitPath ?n) (VirtualFile ?n content) (kRoot vfs) = (None, root)"
    and v': "vfs' = vfs\<lparr>kRoot := root\<rparr>"
    by (auto simp: addFile_def Let_def split: if_splits prod.splits)
  have w: "walk root (splitPath ?n) = Some (VirtualFile ?n content)"
    using addFileLoop_walk[OF loop seg] .
  have nr: "?n \<noteq> ''/''" using seg by (simp add: splitPath_root)
  show ?thesis using w nr by (simp add: v')
qed

lemma read_resolved:
  "resolveEntry cwd w q = Some (VirtualFile x content) \<Longrightarrow> getContentSync content = Inr c \<Longrightarrow>
   existsSync cwd w q \<and> readFileSync toString cwd w q NoOptions = Inr (Buffer c)"
  by (simp add: existsSync_def readFileSync_def handleEncoding_def)

lemmas call_defs = addFile_def addDirectory_def remove_def getParentPath_def getBaseName_def
  StringPrototypeSlice_def vfsPathOf_def mount_def overlay_def unmount_def registerVFS_def
  unregisterVFS_def joinMountPath_def exampleEarlier_def exampleAdded_def exampleLater_def
  exampleFinal_def

text \<open>
  C5, as the code has it. \<open>addFile\<close> and \<open>addDirectory\<close> read their path inside
  the tree, the queries and \<open>remove\<close> translate theirs by the mount point. Take an
  instance reached from the constructor by any calls of \<open>addFile\<close>, \<open>addDirectory\<close>,
  \<open>remove\<close>, \<open>mount\<close>, \<open>overlay\<close> and \<open>unmount\<close>, a successful
  \<open>addFile p\<close> with a content whose bytes are \<open>c\<close>, and then any later calls of these
  six methods, none of which removes or overwrites the entry at \<open>p\<close> or at an ancestor
  of \<open>p\<close> (\<open>untouched\<close>). In the state \<open>w\<close> they end in: when \<open>w\<close> is not
  mounted, \<open>existsSync p\<close> holds and \<open>readFileSync p\<close> without an encoding returns
  \<open>c\<close>; when \<open>w\<close> is mounted at \<open>m\<close> other than \<open>/\<close>, the same holds at the path
  \<open>m\<close> followed by the normalised \<open>p\<close>; when \<open>w\<close> is mounted at \<open>/\<close>,
  \<open>existsSync p\<close> is false.
\<close>

theorem addFile_then_read:
  assumes earlier: "runCalls cwd self earlier (newVirtualFileSystem fallthrough, reg0) = (vfs, reg)"
    and add: "addFile cwd p content vfs = (None, vfs')"
    and bytes: "getContentSync content = Inr c"
    and later: "untouched cwd self later (vfs', reg) (splitPath (normalizePath cwd p))"
    and final: "fst (runCalls cwd self later (vfs', reg)) = w"
  shows "(\<not> kMounted w \<longrightarrow>
            existsSync cwd w p
          \<and> readFileSync toString cwd w p NoOptions = Inr (Buffer c))
       \<and> (kMounted w \<and> kMountPoint w = Some m \<and> m \<noteq> ''/'' \<longrightarrow>
            existsSync cwd w (joinMountPath m (normalizePath cwd p))
          \<and> readFileSync toString cwd w (joinMountPath m (normalizePath cwd p)) NoOptions
              = Inr (Buffer c))
       \<and> (kMounted w \<and> kMountPoint w = Some ''/'' \<longrightarrow> \<not> existsSync cwd w p)"
proof -
  let ?n = "normalizePath cwd p"
  have "mountPointNormalized cwd (fst (newVirtualFileSystem fallthrough, reg0))"
    by (simp add: mountPointNormalized_def newVirtualFileSystem_def)
  then have "mountPointNormalized cwd (fst (runCalls cwd self earlier (newVirtualFileSystem fallthrough, reg0)))"
    by (rule runCalls_mountPointNormalized)
  then have "mountPointNormalized cwd vfs" by (simp add: earlier)
  then have "mountPointNormalized cwd (fst (vfs', reg))"
    using addFile_mode[OF add] by (simp add: mountPointNormalized_def)
  then have "mountPointNormalized cwd (fst (runCalls cwd self later (vfs', reg)))"
    by (rule runCalls_mountPointNormalized)
  then have inv: "mountPointNormalized cwd w" by (simp add: final)
  have nr: "?n \<noteq> ''/''"
    and w0: "walk (kRoot (fst (vfs', reg))) (splitPath ?n) = Some (VirtualFile ?n content)"
    using addFile_walk[OF add] by simp_all
  have "walk (kRoot (fst (runCalls cwd self later (vfs', reg)))) (splitPath ?n)
          = Some (VirtualFile ?n content)"
    by (rule runCalls_keep_walk[OF w0 later])
  then have w: "walk (kRoot w) (splitPath ?n) = Some (VirtualFile ?n content)"
    by (simp add: final)
  have a: "existsSync cwd w p \<and> readFileSync toString cwd w p NoOptions = Inr (Buffer c)"
    if "\<not> kMounted w"
    by (rule read_resolved[OF served_unmounted[OF that w nr] bytes])
  have b: "existsSync cwd w (joinMountPath m ?n)
           \<and> readFileSync toString cwd w (joinMountPath m ?n) NoOptions = Inr (Buffer c)"
    if "kMounted w" "kMountPoint w = Some m" "m \<noteq> ''/''"
    by (rule read_resolved[OF served_mounted[OF inv that w nr] bytes])
  have c: "\<not> existsSync cwd w p" if "kMounted w" "kMountPoint w = Some ''/''"
    using mounted_at_root_hides[OF that nr] by (simp add: existsSync_def)
  show ?thesis using a b c by blast
qed



theorem addFile_then_read_witness:
  "runCalls ''/'' (0::nat) [CallAddDirectory ''/b'' False]
       (newVirtualFileSystem None, exampleRegistry) = (exampleEarlier, exampleRegistry)
   \<and> addFile ''/'' ''/a.txt'' (FixedBytes ''hi'') exampleEarlier = (None, exampleAdded)
   \<and> untouched ''/'' (0::nat) exampleLater (exampleAdded, exampleRegistry) [''a.txt'']
   \<and> fst (runCalls ''/'' (0::nat) exampleLater (exampleAdded, exampleRegistry)) = exampleFinal
   \<and> existsSync ''/'' exampleFinal ''/a.txt''
   \<and> readFileSync exampleToString ''/'' exampleFinal ''/a.txt'' NoOptions = Inr (Buffer ''hi'')
   \<and> untouched ''/'' (0::nat) (exampleLater @ [CallActivate (Mount ''/sea'')])
        (exampleAdded, exampleRegistry) [''a.txt'']
   \<and> fst (runCalls ''/'' (0::nat) (exampleLater @ [CallActivate (Mount ''/sea'')])
            (exampleAdded, exampleRegistry))
       = exampleFinal\<lparr>kMountPoint := Some ''/sea'', kMounted := True\<rparr>
   \<and> existsSync ''/'' (exampleFinal\<lparr>kMountPoint := Some ''/sea'', kMounted := True\<rparr>)
        ''/sea/a.txt''
   \<and> readFileSync exampleToString ''/''
        (exampleFinal\<lparr>kMountPoint := Some ''/sea'', kMounted := True\<rparr>) ''/sea/a.txt'' NoOptions
       = Inr (Buffer ''hi'')
   \<and> touches ''/'' exampleFinal (CallRemove ''/a.txt'') [''a.txt'']
   \<and> \<not> existsSync ''/'' (snd (remove ''/'' ''/a.txt'' exampleFinal)) ''/a.txt''"
proof -
  let ?mounted = "exampleFinal\<lparr>kMountPoint := Some ''/sea'', kMounted := True\<rparr>"
  have n: "normalizePath ''/'' ''/a.txt'' = ''/a.txt''"
    by (simp add: eval_defs)
  have e: "runCalls ''/'' (0::nat) [CallAddDirectory ''/b'' False]
       (newVirtualFileSystem None, exampleRegistry) = (exampleEarlier, exampleRegistry)"
    by (simp add: call_defs eval_defs)
  have a: "addFile ''/'' ''/a.txt'' (FixedBytes ''hi'') exampleEarlier = (None, exampleAdded)"
    by (simp add: call_defs eval_defs)
  have b: "getContentSync (FixedBytes ''hi'') = Inr ''hi''"
    by simp
  have s: "splitPath (normalizePath ''/'' ''/a.txt'') = [''a.txt'']"
    by (simp add: eval_defs)
  have u1: "untouched ''/'' (0::nat) exampleLater (exampleAdded, exampleRegistry) [''a.txt'']"
    by (simp add: call_defs eval_defs)
  have f1: "fst (runCalls ''/'' (0::nat) exampleLater (exampleAdded, exampleRegistry))
              = exampleFinal"
    by (simp add: call_defs eval_defs)
  have u2: "untouched ''/'' (0::nat) (exampleLater @ [CallActivate (Mount ''/sea'')])
        (exampleAdded, exampleRegistry) [''a.txt'']"
    by (simp add: call_defs eval_defs)
  have f2: "fst (runCalls ''/'' (0::nat) (exampleLater @ [CallActivate (Mount ''/sea'')])
            (exampleAdded, exampleRegistry)) = ?mounted"
    by (simp add: call_defs eval_defs)
  have m1: "\<not> kMounted exampleFinal"
    by (simp add: exampleFinal_def)
  have m2: "kMounted ?mounted \<and> kMountPoint ?mounted = Some ''/sea'' \<and> ''/sea'' \<noteq> ''/''"
    by simp
  have j: "joinMountPath ''/sea'' (normalizePath ''/'' ''/a.txt'') = ''/sea/a.txt''"
    by (simp add: n joinMountPath_def)
  have t: "touches ''/'' exampleFinal (CallRemove ''/a.txt'') [''a.txt'']"
    by (simp add: call_defs eval_defs)
  have r: "\<not> existsSync ''/'' (snd (remove ''/'' ''/a.txt'' exampleFinal)) ''/a.txt''"
    by (simp add: call_defs eval_defs)
  note t1 = addFile_then_read[OF e a b, where later = exampleLater and w = exampleFinal
      and toString = exampleToString and m = "''/sea''", OF u1[folded s] f1]
  note t2 = addFile_then_read[OF e a b,
      where later = "exampleLater @ [CallActivate (Mount ''/sea'')]" and w = ?mounted
      and toString = exampleToString and m = "''/sea''", OF u2[folded s] f2]
  have c1: "existsSync ''/'' exampleFinal ''/a.txt''
            \<and> readFileSync exampleToString ''/'' exampleFinal ''/a.txt'' NoOptions
                = Inr (Buffer ''hi'')"
    using t1[THEN conjunct1, THEN mp, OF m1] .
  have c2: "existsSync ''/'' ?mounted ''/sea/a.txt''
            \<and> readFileSync exampleToString ''/'' ?mounted ''/sea/a.txt'' NoOptions
                = Inr (Buffer ''hi'')"
    using t2[THEN conjunct2, THEN conjunct1, THEN mp, OF m2] by (simp only: j)
  show ?thesis
    using e a u1 f1 c1 u2 f2 c2 t r by (simp only: simp_thms)
qed

text \<open>
  C5 as stated fails: \<open>addFile\<close> reads its path inside the tree, the queries
  translate theirs by the mount point. After \<open>addFile '/a.txt'\<close> and
  \<open>mount '/sea'\<close>, with nothing removed, \<open>existsSync '/a.txt'\<close> is false and
  \<open>readFileSync '/a.txt'\<close> fails with ENOENT.
\<close>

theorem addFile_then_mount_counterexample:
  "addFile ''/'' ''/a.txt'' (FixedBytes ''hi'') (newVirtualFileSystem None)
     = (None, exampleUnmounted)
   \<and> mount ''/'' (0::nat) ''/sea'' (exampleUnmounted, exampleRegistry)
       = (None, exampleMounted, \<lparr>activeVFSList = [0], hooksInstalled = True\<rparr>)
   \<and> \<not> existsSync ''/'' exampleMounted ''/a.txt''
   \<and> readFileSync exampleToString ''/'' exampleMounted ''/a.txt'' NoOptions
       = Inl (ENOENT ''open'' ''/a.txt'')"
  by (simp add: addFile_def mount_def registerVFS_def readFileSync_def example_defs eval_defs)

subsection \<open>Activation states\<close>

lemma activate_exclusive:
  "\<not> (kMounted (fst st) \<and> kOverlay (fst st)) \<Longrightarrow>
   \<not> (kMounted (fst (activate cwd self call st)) \<and> kOverlay (fst (activate cwd self call st)))"
  by (cases call; cases st) (auto simp: mount_def overlay_def unmount_def)

lemma activations_exclusive:
  "\<not> (kMounted (fst st) \<and> kOverlay (fst st)) \<Longrightarrow>
   \<not> (kMounted (fst (activations cwd self calls st))
      \<and> kOverlay (fst (activations cwd self calls st)))"
proof (induction calls arbitrary: st)
  case Nil
  then show ?case by simp
next
  case (Cons call calls)
  show ?case
    using Cons.IH[OF activate_exclusive[OF Cons.prems]] by simp
qed

lemma activate_mounted_by_mount:
  "kMounted (fst (activate cwd self call st)) \<Longrightarrow>
   kMounted (fst st) \<or> (\<exists>m. call = Mount m)"
  by (cases call; cases st) (auto simp: mount_def overlay_def unmount_def split: if_splits)

lemma activate_overlay_by_overlay:
  "kOverlay (fst (activate cwd self call st)) \<Longrightarrow> kOverlay (fst st) \<or> call = Overlay"
  by (cases call; cases st) (auto simp: mount_def overlay_def unmount_def split: if_splits)

lemma activations_mounted_by_mount:
  "kMounted (fst (activations cwd self calls st)) \<Longrightarrow>
   kMounted (fst st) \<or> (\<exists>m. Mount m \<in> set calls)"
proof (induction calls arbitrary: st)
  case Nil
  then show ?case by simp
next
  case (Cons call calls)
  from Cons.IH[of "activate cwd self call st"] Cons.prems
  have "kMounted (fst (activate cwd self call st)) \<or> (\<exists>m. Mount m \<in> set calls)" by simp
  then show ?case using activate_mounted_by_mount[of cwd self call st] by auto
qed

lemma activations_overlay_by_overlay:
  "kOverlay (fst (activations cwd self calls st)) \<Longrightarrow>
   kOverlay (fst st) \<or> Overlay \<in> set calls"
proof (induction calls arbitrary: st)
  case Nil
  then show ?case by simp
next
  case (Cons call calls)
  from Cons.IH[of "activate cwd self call st"] Cons.prems
  have "kOverlay (fst (activate cwd self call st)) \<or> Overlay \<in> set calls" by simp
  then show ?case using activate_overlay_by_overlay[of cwd self call st] by auto
qed

text \<open>
  C9. Starting from a new instance, no sequence of \<open>mount\<close>, \<open>overlay\<close> and
  \<open>unmount\<close> calls leaves it both mounted and in overlay mode; it is mounted only if
  the sequence holds a \<open>mount\<close> call and in overlay mode only if it holds an
  \<open>overlay\<close> call; and on an instance that is already mounted or in overlay mode
  \<open>mount\<close> and \<open>overlay\<close> raise the already-active error and leave the instance and
  the registry as they were.
\<close>

theorem activation_modes_exclusive:
  "\<not> (kMounted (fst (activations cwd self calls (newVirtualFileSystem ft, reg)))
      \<and> kOverlay (fst (activations cwd self calls (newVirtualFileSystem ft, reg))))
   \<and> (kMounted (fst (activations cwd self calls (newVirtualFileSystem ft, reg)))
        \<longrightarrow> (\<exists>m. Mount m \<in> set calls))
   \<and> (kOverlay (fst (activations cwd self calls (newVirtualFileSystem ft, reg)))
        \<longrightarrow> Overlay \<in> set calls)
   \<and> (kMounted vfs \<or> kOverlay vfs \<longrightarrow>
        mount cwd self m (vfs, reg)
          = (Some (Error ''VFS is already mounted or in overlay mode''), vfs, reg)
        \<and> overlay self (vfs, reg)
          = (Some (Error ''VFS is already mounted or in overlay mode''), vfs, reg))"
proof (intro conjI impI)
  have i: "\<not> (kMounted (fst (newVirtualFileSystem ft, reg))
              \<and> kOverlay (fst (newVirtualFileSystem ft, reg)))"
    by (simp add: newVirtualFileSystem_def)
  show "\<not> (kMounted (fst (activations cwd self calls (newVirtualFileSystem ft, reg)))
      \<and> kOverlay (fst (activations cwd self calls (newVirtualFileSystem ft, reg))))"
    by (rule activations_exclusive[OF i])
next
  assume "kMounted (fst (activations cwd self calls (newVirtualFileSystem ft, reg)))"
  from activations_mounted_by_mount[OF this]
  show "\<exists>m. Mount m \<in> set calls" by (simp add: newVirtualFileSystem_def)
next
  assume "kOverlay (fst (activations cwd self calls (newVirtualFileSystem ft, reg)))"
  from activations_overlay_by_overlay[OF this]
  show "Overlay \<in> set calls" by (simp add: newVirtualFileSystem_def)
next
  assume "kMounted vfs \<or> kOverlay vfs"
  then show "mount cwd self m (vfs, reg)
          = (Some (Error ''VFS is already mounted or in overlay mode''), vfs, reg)"
    by (simp add: mount_def)
next
  assume "kMounted vfs \<or> kOverlay vfs"
  then show "overlay self (vfs, reg)
          = (Some (Error ''VFS is already mounted or in overlay mode''), vfs, reg)"
    by (simp add: overlay_def)
qed

theorem activation_modes_exclusive_witness:
  "kMounted (fst (activations ''/'' (0::nat) [Mount ''/sea'', Overlay]
                    (newVirtualFileSystem None, exampleRegistry)))
   \<and> \<not> kOverlay (fst (activations ''/'' (0::nat) [Mount ''/sea'', Overlay]
                    (newVirtualFileSystem None, exampleRegistry)))
   \<and> Mount ''/sea'' \<in> set [Mount ''/sea'', Overlay]
   \<and> kOverlay (fst (activations ''/'' (0::nat) [Mount ''/sea'', Unmount, Overlay, Mount ''/x'']
                    (newVirtualFileSystem None, exampleRegistry)))
   \<and> \<not> kMounted (fst (activations ''/'' (0::nat) [Mount ''/sea'', Unmount, Overlay, Mount ''/x'']
                    (newVirtualFileSystem None, exampleRegistry)))
   \<and> kMounted exampleMounted
   \<and> mount ''/'' (0::nat) ''/other'' (exampleMounted, exampleRegistry)
       = (Some (Error ''VFS is already mounted or in overlay mode''), exampleMounted, exampleRegistry)
   \<and> kOverlay exampleOverlay
   \<and> overlay (0::nat) (exampleOverlay, exampleRegistry)
       = (Some (Error ''VFS is already mounted or in overlay mode''), exampleOverlay, exampleRegistry)"
proof -
  have a: "kMounted (fst (activations ''/'' (0::nat) [Mount ''/sea'', Overlay]
                    (newVirtualFileSystem None, exampleRegistry)))"
    by (simp add: mount_def overlay_def newVirtualFileSystem_def)
  have b: "kOverlay (fst (activations ''/'' (0::nat) [Mount ''/sea'', Unmount, Overlay, Mount ''/x'']
                    (newVirtualFileSystem None, exampleRegistry)))"
    by (simp add: mount_def overlay_def unmount_def newVirtualFileSystem_def)
  have c: "kMounted exampleMounted" "kOverlay exampleOverlay"
    by (simp_all add: example_defs)
  show ?thesis
    using a b c
      activation_modes_exclusive [of "''/''" "0::nat" "[Mount ''/sea'', Overlay]" None
        exampleRegistry exampleMounted "''/other''"]
      activation_modes_exclusive [of "''/''" "0::nat"
        "[Mount ''/sea'', Unmount, Overlay, Mount ''/x'']" None
        exampleRegistry exampleOverlay "''/other''"]
    by simp
qed

section \<open>Properties of the hook registry\<close>

subsection \<open>Finality of a miss\<close>

lemma shouldHandle_overlay_exists:
  "shouldHandle cwd vfs (normalizePath cwd f) \<Longrightarrow> \<not> kMounted vfs \<Longrightarrow>
   existsSync cwd vfs (normalizePath cwd f)"
  by (simp add: shouldHandle_def existsSync_def resolveEntry_normalized split: if_splits)

lemma overlay_miss_not_claimed:
  "\<not> kMounted vfs \<Longrightarrow> \<not> existsSync cwd vfs (normalizePath cwd f) \<Longrightarrow>
   \<not> shouldHandle cwd vfs (normalizePath cwd f)"
  using shouldHandle_overlay_exists by blast

lemma findVFSForReadLoop_skip:
  "\<forall>u\<in>set pre. \<not> shouldHandle cwd u n \<Longrightarrow>
   findVFSForReadLoop toString cwd f n options (pre @ xs)
     = findVFSForReadLoop toString cwd f n options xs"
  by (induction pre) simp_all

lemma findVFSForRealpathLoop_skip:
  "\<forall>u\<in>set pre. \<not> shouldHandle cwd u n \<Longrightarrow>
   findVFSForRealpathLoop cwd f n (pre @ xs) = findVFSForRealpathLoop cwd f n xs"
  by (induction pre) simp_all

lemma findVFSForFsStatLoop_skip:
  "\<forall>u\<in>set pre. \<not> shouldHandle cwd u n \<Longrightarrow>
   findVFSForFsStatLoop getStats cwd f n (pre @ xs) = findVFSForFsStatLoop getStats cwd f n xs"
  by (induction pre) simp_all

text \<open>
  C1. In the dispatch of read, stat and realpath, let the instances before \<open>vfs\<close> in
  the list not claim the path, and let the path have no entry in \<open>vfs\<close>. If \<open>vfs\<close>
  is mounted and claims the path, the dispatch raises ENOENT, tagged with the operation
  and the path as given, whatever instances follow and whatever the original
  implementation would do. If \<open>vfs\<close> is an overlay, it does not claim the path and the
  dispatch goes on with the instances that follow: when none of them claims the path each
  hook returns what the original implementation returns, and when the next instance
  claims the path and has an entry there the hooks return what that instance gives.
\<close>

theorem dispatch_miss_finality:
  assumes skip: "\<forall>u\<in>set pre. \<not> shouldHandle cwd u (normalizePath cwd filename)"
    and miss: "\<not> existsSync cwd vfs (normalizePath cwd filename)"
  shows "(kMounted vfs \<and> shouldHandle cwd vfs (normalizePath cwd filename) \<longrightarrow>
            findVFSForRead toString cwd (pre @ vfs # rest) filename options
              = Inl (ENOENT ''open'' filename)
          \<and> findVFSForFsStat getStats cwd (pre @ vfs # rest) filename
              = Inl (ENOENT ''stat'' filename)
          \<and> findVFSForRealpath cwd (pre @ vfs # rest) filename
              = Inl (ENOENT ''realpath'' filename)
          \<and> vfsReadFileSync originalReadFileSync toString cwd (pre @ vfs # rest)
                (PathString filename) options = Inl (ENOENT ''open'' filename)
          \<and> vfsStatSync originalStatSync getStats cwd (pre @ vfs # rest) (PathString filename)
              = Inl (ENOENT ''stat'' filename)
          \<and> vfsRealpathSync originalRealpathSync cwd (pre @ vfs # rest) (PathString filename)
              = Inl (ENOENT ''realpath'' filename))
       \<and> (kOverlay vfs \<and> \<not> kMounted vfs \<longrightarrow>
            \<not> shouldHandle cwd vfs (normalizePath cwd filename)
          \<and> findVFSForRead toString cwd (pre @ vfs # rest) filename options
              = findVFSForRead toString cwd rest filename options
          \<and> findVFSForFsStat getStats cwd (pre @ vfs # rest) filename
              = findVFSForFsStat getStats cwd rest filename
          \<and> findVFSForRealpath cwd (pre @ vfs # rest) filename
              = findVFSForRealpath cwd rest filename
          \<and> vfsReadFileSync originalReadFileSync toString cwd (pre @ vfs # rest)
                (PathString filename) options
              = vfsReadFileSync originalReadFileSync toString cwd rest
                  (PathString filename) options
          \<and> vfsStatSync originalStatSync getStats cwd (pre @ vfs # rest) (PathString filename)
              = vfsStatSync originalStatSync getStats cwd rest (PathString filename)
          \<and> vfsRealpathSync originalRealpathSync cwd (pre @ vfs # rest) (PathString filename)
              = vfsRealpathSync originalRealpathSync cwd rest (PathString filename)
          \<and> ((\<forall>u\<in>set rest. \<not> shouldHandle cwd u (normalizePath cwd filename)) \<longrightarrow>
                vfsReadFileSync originalReadFileSync toString cwd (pre @ vfs # rest)
                    (PathString filename) options
                  = originalReadFileSync (PathString filename) options
              \<and> vfsStatSync originalStatSync getStats cwd (pre @ vfs # rest)
                    (PathString filename)
                  = originalStatSync (PathString filename)
              \<and> vfsRealpathSync originalRealpathSync cwd (pre @ vfs # rest)
                    (PathString filename)
                  = originalRealpathSync (PathString filename))
          \<and> (rest = nextVfs # others \<and> shouldHandle cwd nextVfs (normalizePath cwd filename)
               \<and> resolveEntry cwd nextVfs (normalizePath cwd filename) = Some entry \<longrightarrow>
                vfsStatSync originalStatSync getStats cwd (pre @ vfs # rest)
                    (PathString filename)
                  = Inr (getStats entry)
              \<and> vfsRealpathSync originalRealpathSync cwd (pre @ vfs # rest)
                    (PathString filename)
                  = Inr (normalizePath cwd filename)
              \<and> (readFileSync toString cwd nextVfs (normalizePath cwd filename) options
                    = Inr content \<longrightarrow>
                    vfsReadFileSync originalReadFileSync toString cwd (pre @ vfs # rest)
                        (PathString filename) options
                      = Inr content)))"
proof (intro conjI impI)
  assume m: "kMounted vfs \<and> shouldHandle cwd vfs (normalizePath cwd filename)"
  show r: "findVFSForRead toString cwd (pre @ vfs # rest) filename options
              = Inl (ENOENT ''open'' filename)"
    using m miss by (simp add: findVFSForRead_def findVFSForReadLoop_skip[OF skip] createENOENT_def)
  show s: "findVFSForFsStat getStats cwd (pre @ vfs # rest) filename
              = Inl (ENOENT ''stat'' filename)"
    using m miss by (simp add: findVFSForFsStat_def findVFSForFsStatLoop_skip[OF skip] createENOENT_def)
  show p: "findVFSForRealpath cwd (pre @ vfs # rest) filename
              = Inl (ENOENT ''realpath'' filename)"
    using m miss by (simp add: findVFSForRealpath_def findVFSForRealpathLoop_skip[OF skip] createENOENT_def)
  show "vfsReadFileSync originalReadFileSync toString cwd (pre @ vfs # rest)
                (PathString filename) options = Inl (ENOENT ''open'' filename)"
    by (simp add: vfsReadFileSync_def r)
  show "vfsStatSync originalStatSync getStats cwd (pre @ vfs # rest) (PathString filename)
              = Inl (ENOENT ''stat'' filename)"
    by (simp add: vfsStatSync_def s)
  show "vfsRealpathSync originalRealpathSync cwd (pre @ vfs # rest) (PathString filename)
              = Inl (ENOENT ''realpath'' filename)"
    by (simp add: vfsRealpathSync_def p)
next
  assume o: "kOverlay vfs \<and> \<not> kMounted vfs"
  then show n: "\<not> shouldHandle cwd vfs (normalizePath cwd filename)"
    using miss overlay_miss_not_claimed by blast
  show r: "findVFSForRead toString cwd (pre @ vfs # rest) filename options
              = findVFSForRead toString cwd rest filename options"
    using n by (simp add: findVFSForRead_def findVFSForReadLoop_skip[OF skip])
  show s: "findVFSForFsStat getStats cwd (pre @ vfs # rest) filename
              = findVFSForFsStat getStats cwd rest filename"
    using n by (simp add: findVFSForFsStat_def findVFSForFsStatLoop_skip[OF skip])
  show p: "findVFSForRealpath cwd (pre @ vfs # rest) filename
              = findVFSForRealpath cwd rest filename"
    using n by (simp add: findVFSForRealpath_def findVFSForRealpathLoop_skip[OF skip])
  show hr: "vfsReadFileSync originalReadFileSync toString cwd (pre @ vfs # rest)
                (PathString filename) options
              = vfsReadFileSync originalReadFileSync toString cwd rest
                  (PathString filename) options"
    by (simp add: vfsReadFileSync_def r)
  show hs: "vfsStatSync originalStatSync getStats cwd (pre @ vfs # rest) (PathString filename)
              = vfsStatSync originalStatSync getStats cwd rest (PathString filename)"
    by (simp add: vfsStatSync_def s)
  show hp: "vfsRealpathSync originalRealpathSync cwd (pre @ vfs # rest) (PathString filename)
              = vfsRealpathSync originalRealpathSync cwd rest (PathString filename)"
    by (simp add: vfsRealpathSync_def p)
  {
    assume none: "\<forall>u\<in>set rest. \<not> shouldHandle cwd u (normalizePath cwd filename)"
    have "findVFSForRead toString cwd rest filename options = Inr None"
      using findVFSForReadLoop_skip[OF none, of toString filename options "[]"]
      by (simp add: findVFSForRead_def)
    then show "vfsReadFileSync originalReadFileSync toString cwd (pre @ vfs # rest)
                    (PathString filename) options
                  = originalReadFileSync (PathString filename) options"
      by (simp add: vfsReadFileSync_def r)
    have "findVFSForFsStat getStats cwd rest filename = Inr None"
      using findVFSForFsStatLoop_skip[OF none, of getStats filename "[]"]
      by (simp add: findVFSForFsStat_def)
    then show "vfsStatSync originalStatSync getStats cwd (pre @ vfs # rest)
                    (PathString filename)
                  = originalStatSync (PathString filename)"
      by (simp add: vfsStatSync_def s)
    have "findVFSForRealpath cwd rest filename = Inr None"
      using findVFSForRealpathLoop_skip[OF none, of filename "[]"]
      by (simp add: findVFSForRealpath_def)
    then show "vfsRealpathSync originalRealpathSync cwd (pre @ vfs # rest)
                    (PathString filename)
                  = originalRealpathSync (PathString filename)"
      by (simp add: vfsRealpathSync_def p)
  }
  {
    assume nx: "rest = nextVfs # others \<and> shouldHandle cwd nextVfs (normalizePath cwd filename)
               \<and> resolveEntry cwd nextVfs (normalizePath cwd filename) = Some entry"
    have "findVFSForFsStat getStats cwd rest filename = Inr (Some (nextVfs, getStats entry))"
      using nx by (simp add: findVFSForFsStat_def existsSync_def statSync_def)
    then show "vfsStatSync originalStatSync getStats cwd (pre @ vfs # rest)
                    (PathString filename)
                  = Inr (getStats entry)"
      by (simp add: vfsStatSync_def s)
    have "realpathSync cwd nextVfs (normalizePath cwd filename)
            = Inr (normalizePath cwd filename)"
      using nx by (simp add: realpathSync_def resolveEntry_normalized normalizePath_idem)
    then have "findVFSForRealpath cwd rest filename
                 = Inr (Some (nextVfs, normalizePath cwd filename))"
      using nx by (simp add: findVFSForRealpath_def existsSync_def)
    then show "vfsRealpathSync originalRealpathSync cwd (pre @ vfs # rest)
                    (PathString filename)
                  = Inr (normalizePath cwd filename)"
      by (simp add: vfsRealpathSync_def p)
    {
      assume rd: "readFileSync toString cwd nextVfs (normalizePath cwd filename) options
                    = Inr content"
      then have "\<not> isDirectory entry"
        using nx by (cases entry) (simp_all add: readFileSync_def createEISDIR_def)
      then have "internalModuleStat cwd nextVfs (normalizePath cwd filename) = 0"
        using nx by (simp add: internalModuleStat_def)
      then have "findVFSForRead toString cwd rest filename options
                   = Inr (Some (nextVfs, content))"
        using nx rd by (simp add: findVFSForRead_def existsSync_def)
      then show "vfsReadFileSync originalReadFileSync toString cwd (pre @ vfs # rest)
                        (PathString filename) options
                      = Inr content"
        by (simp add: vfsReadFileSync_def r)
    }
  }
qed


theorem dispatch_miss_finality_witness:
  "\<not> shouldHandle ''/'' exampleOverlay (normalizePath ''/'' ''/sea/missing.txt'')
   \<and> \<not> existsSync ''/'' exampleMounted (normalizePath ''/'' ''/sea/missing.txt'')
   \<and> kMounted exampleMounted
   \<and> shouldHandle ''/'' exampleMounted (normalizePath ''/'' ''/sea/missing.txt'')
   \<and> vfsReadFileSync (\<lambda>path options. Inr (Buffer ''real'')) exampleToString ''/''
        [exampleOverlay, exampleMounted, exampleOverlaySea]
        (PathString ''/sea/missing.txt'') NoOptions
       = Inl (ENOENT ''open'' ''/sea/missing.txt'')
   \<and> vfsStatSync (\<lambda>path. Inr ''real stats'') (\<lambda>e. if isDirectory e then ''dir'' else ''file'')
        ''/'' [exampleOverlay, exampleMounted, exampleOverlaySea]
        (PathString ''/sea/missing.txt'')
       = Inl (ENOENT ''stat'' ''/sea/missing.txt'')
   \<and> vfsRealpathSync (\<lambda>path. Inr ''/real'') ''/''
        [exampleOverlay, exampleMounted, exampleOverlaySea]
        (PathString ''/sea/missing.txt'')
       = Inl (ENOENT ''realpath'' ''/sea/missing.txt'')
   \<and> \<not> shouldHandle ''/'' exampleUnmounted (normalizePath ''/'' ''/b.txt'')
   \<and> \<not> existsSync ''/'' exampleOverlay (normalizePath ''/'' ''/b.txt'')
   \<and> kOverlay exampleOverlay \<and> \<not> kMounted exampleOverlay
   \<and> \<not> shouldHandle ''/'' exampleOverlaySea (normalizePath ''/'' ''/b.txt'')
   \<and> vfsReadFileSync (\<lambda>path options. Inr (Buffer ''real'')) exampleToString ''/''
        [exampleUnmounted, exampleOverlay, exampleOverlaySea] (PathString ''/b.txt'') NoOptions
       = Inr (Buffer ''real'')
   \<and> vfsStatSync (\<lambda>path. Inr ''real stats'') (\<lambda>e. if isDirectory e then ''dir'' else ''file'')
        ''/'' [exampleUnmounted, exampleOverlay, exampleOverlaySea] (PathString ''/b.txt'')
       = Inr ''real stats''
   \<and> vfsRealpathSync (\<lambda>path. Inr ''/real'') ''/''
        [exampleUnmounted, exampleOverlay, exampleOverlaySea] (PathString ''/b.txt'')
       = Inr ''/real''
   \<and> \<not> existsSync ''/'' exampleOverlay (normalizePath ''/'' ''/sea/missing.txt'')
   \<and> shouldHandle ''/'' exampleOverlaySea (normalizePath ''/'' ''/sea/missing.txt'')
   \<and> vfsReadFileSync (\<lambda>path options. Inr (Buffer ''real'')) exampleToString ''/''
        [exampleOverlay, exampleOverlaySea] (PathString ''/sea/missing.txt'') NoOptions
       = Inr (Buffer ''late'')
   \<and> vfsStatSync (\<lambda>path. Inr ''real stats'') (\<lambda>e. if isDirectory e then ''dir'' else ''file'')
        ''/'' [exampleOverlay, exampleOverlaySea] (PathString ''/sea/missing.txt'')
       = Inr ''file''
   \<and> vfsRealpathSync (\<lambda>path. Inr ''/real'') ''/''
        [exampleOverlay, exampleOverlaySea] (PathString ''/sea/missing.txt'')
       = Inr ''/sea/missing.txt''"
proof -
  have n1: "normalizePath ''/'' ''/sea/missing.txt'' = ''/sea/missing.txt''"
    and n2: "normalizePath ''/'' ''/b.txt'' = ''/b.txt''"
    by (simp_all add: eval_defs)
  have s1: "\<forall>u\<in>set [exampleOverlay].
              \<not> shouldHandle ''/'' u (normalizePath ''/'' ''/sea/missing.txt'')"
    by (simp add: shouldHandle_def example_defs eval_defs)
  have m1: "\<not> existsSync ''/'' exampleMounted (normalizePath ''/'' ''/sea/missing.txt'')"
    by (simp add: example_defs eval_defs)
  have c1: "kMounted exampleMounted
            \<and> shouldHandle ''/'' exampleMounted (normalizePath ''/'' ''/sea/missing.txt'')"
    by (simp add: shouldHandle_def example_defs eval_defs)
  have s2: "\<forall>u\<in>set [exampleUnmounted]. \<not> shouldHandle ''/'' u (normalizePath ''/'' ''/b.txt'')"
    by (simp add: shouldHandle_def example_defs)
  have m2: "\<not> existsSync ''/'' exampleOverlay (normalizePath ''/'' ''/b.txt'')"
    by (simp add: example_defs eval_defs)
  have c2: "kOverlay exampleOverlay \<and> \<not> kMounted exampleOverlay"
    by (simp add: example_defs)
  have r2: "\<forall>u\<in>set [exampleOverlaySea]. \<not> shouldHandle ''/'' u (normalizePath ''/'' ''/b.txt'')"
    by (simp add: shouldHandle_def example_defs eval_defs)
  have s3: "\<forall>u\<in>set []. \<not> shouldHandle ''/'' u (normalizePath ''/'' ''/sea/missing.txt'')"
    by simp
  have m3: "\<not> existsSync ''/'' exampleOverlay (normalizePath ''/'' ''/sea/missing.txt'')"
    by (simp add: example_defs eval_defs)
  have e3: "resolveEntry ''/'' exampleOverlaySea (normalizePath ''/'' ''/sea/missing.txt'')
              = Some (VirtualFile ''/sea/missing.txt'' (FixedBytes ''late''))"
    by (simp add: example_defs eval_defs)
  have c3: "shouldHandle ''/'' exampleOverlaySea (normalizePath ''/'' ''/sea/missing.txt'')"
    using e3 by (simp add: shouldHandle_def resolveEntry_normalized exampleOverlaySea_def)
  have d3: "readFileSync exampleToString ''/'' exampleOverlaySea
              (normalizePath ''/'' ''/sea/missing.txt'') NoOptions = Inr (Buffer ''late'')"
    by (simp add: readFileSync_def e3 handleEncoding_def)
  note t1 = dispatch_miss_finality [OF s1 m1, where rest = "[exampleOverlaySea]"
        and toString = exampleToString and options = NoOptions
        and originalReadFileSync = "\<lambda>path options. Inr (Buffer ''real'')"
        and getStats = "\<lambda>e. if isDirectory e then ''dir'' else ''file''"
        and originalStatSync = "\<lambda>path. Inr ''real stats''"
        and originalRealpathSync = "\<lambda>path. Inr ''/real''"
        and nextVfs = exampleOverlaySea and others = "[]"
        and entry = "VirtualFile ''/sea/missing.txt'' (FixedBytes ''late'')"
        and content = "Buffer ''late''"]
  note t2 = dispatch_miss_finality [OF s2 m2, where rest = "[exampleOverlaySea]"
        and toString = exampleToString and options = NoOptions
        and originalReadFileSync = "\<lambda>path options. Inr (Buffer ''real'')"
        and getStats = "\<lambda>e. if isDirectory e then ''dir'' else ''file''"
        and originalStatSync = "\<lambda>path. Inr ''real stats''"
        and originalRealpathSync = "\<lambda>path. Inr ''/real''"
        and nextVfs = exampleOverlaySea and others = "[]"
        and entry = "VirtualFile ''/sea/missing.txt'' (FixedBytes ''late'')"
        and content = "Buffer ''late''"]
  note t3 = dispatch_miss_finality [OF s3 m3, where rest = "[exampleOverlaySea]"
        and toString = exampleToString and options = NoOptions
        and originalReadFileSync = "\<lambda>path options. Inr (Buffer ''real'')"
        and getStats = "\<lambda>e. if isDirectory e then ''dir'' else ''file''"
        and originalStatSync = "\<lambda>path. Inr ''real stats''"
        and originalRealpathSync = "\<lambda>path. Inr ''/real''"
        and nextVfs = exampleOverlaySea and others = "[]"
        and entry = "VirtualFile ''/sea/missing.txt'' (FixedBytes ''late'')"
        and content = "Buffer ''late''"]
  note mounted1 = t1 [THEN conjunct1, THEN mp, OF c1]
  note overlay2 = t2 [THEN conjunct2, THEN mp, OF c2]
  note overlay3 = t3 [THEN conjunct2, THEN mp, OF c2]
  note original2 =
    overlay2 [THEN conjunct2, THEN conjunct2, THEN conjunct2, THEN conjunct2, THEN conjunct2,
      THEN conjunct2, THEN conjunct2, THEN conjunct1, THEN mp, OF r2]
  note next3 =
    overlay3 [THEN conjunct2, THEN conjunct2, THEN conjunct2, THEN conjunct2, THEN conjunct2,
      THEN conjunct2, THEN conjunct2, THEN conjunct2, THEN mp,
      OF conjI [OF refl conjI [OF c3 e3]]]
  have g1: "vfsReadFileSync (\<lambda>path options. Inr (Buffer ''real'')) exampleToString ''/''
        [exampleOverlay, exampleMounted, exampleOverlaySea]
        (PathString ''/sea/missing.txt'') NoOptions
       = Inl (ENOENT ''open'' ''/sea/missing.txt'')
   \<and> vfsStatSync (\<lambda>path. Inr ''real stats'') (\<lambda>e. if isDirectory e then ''dir'' else ''file'')
        ''/'' [exampleOverlay, exampleMounted, exampleOverlaySea]
        (PathString ''/sea/missing.txt'')
       = Inl (ENOENT ''stat'' ''/sea/missing.txt'')
   \<and> vfsRealpathSync (\<lambda>path. Inr ''/real'') ''/''
        [exampleOverlay, exampleMounted, exampleOverlaySea]
        (PathString ''/sea/missing.txt'')
       = Inl (ENOENT ''realpath'' ''/sea/missing.txt'')"
    using mounted1 by simp
  have g2: "vfsReadFileSync (\<lambda>path options. Inr (Buffer ''real'')) exampleToString ''/''
        [exampleUnmounted, exampleOverlay, exampleOverlaySea] (PathString ''/b.txt'') NoOptions
       = Inr (Buffer ''real'')
   \<and> vfsStatSync (\<lambda>path. Inr ''real stats'') (\<lambda>e. if isDirectory e then ''dir'' else ''file'')
        ''/'' [exampleUnmounted, exampleOverlay, exampleOverlaySea] (PathString ''/b.txt'')
       = Inr ''real stats''
   \<and> vfsRealpathSync (\<lambda>path. Inr ''/real'') ''/''
        [exampleUnmounted, exampleOverlay, exampleOverlaySea] (PathString ''/b.txt'')
       = Inr ''/real''"
    using original2 by simp
  have g3: "vfsReadFileSync (\<lambda>path options. Inr (Buffer ''real'')) exampleToString ''/''
        [exampleOverlay, exampleOverlaySea] (PathString ''/sea/missing.txt'') NoOptions
       = Inr (Buffer ''late'')
   \<and> vfsStatSync (\<lambda>path. Inr ''real stats'') (\<lambda>e. if isDirectory e then ''dir'' else ''file'')
        ''/'' [exampleOverlay, exampleOverlaySea] (PathString ''/sea/missing.txt'')
       = Inr ''file''
   \<and> vfsRealpathSync (\<lambda>path. Inr ''/real'') ''/''
        [exampleOverlay, exampleOverlaySea] (PathString ''/sea/missing.txt'')
       = Inr ''/sea/missing.txt''"
    using next3 d3 by (simp add: n1)
  show ?thesis
    using s1 m1 c1 s2 m2 c2 r2 m3 c3 g1 g2 g3 by simp
qed

subsection \<open>Registration order\<close>








end
